theory Spec2Isabelle
  imports Complex_Main "HOL-Library.Char_ord"
begin

section \<open>Floats\<close>

text \<open>
  A Python float is a real number, an infinity or NaN. The result of reading a number
  or of an arithmetic operation is taken exact when it lies in the range of a double.
  Beyond the range it is infinite: \<open>float_overflow\<close>, which is \<open>2 ^ 1024 - 2 ^ 970\<close>, is
  the least magnitude that rounds to an infinity. Near zero it is zero:
  \<open>float_underflow\<close>, which is \<open>1 / 2 ^ 1075\<close>, is the greatest magnitude that rounds to
  zero. Rounding between these bounds is left out.
\<close>

datatype pyfloat = Finite real | PosInf | NegInf | NaN

definition float_overflow :: real where
  "float_overflow = 179769313486231580793728971405303415079934132710037826936173778980444968292764750946649017977587207096330286416692887910946555547851940402630657488671505820681908902000708383676273854845817711531764475730270069855571366959622842914819860834936475292719074168444365510704342711559699508093042880177904174497792"

definition float_underflow :: real where
  "float_underflow = 1 / 404804506614621236704990693437834614099113299528284236713802716054860679135990693783920767402874248990374155728633623822779617474771586953734026799881477019843034848553132722728933815484186432682479535356945490137124014966849385397236206711298319112681620113024717539104666829230461005064372655017292012526615415482186989568"

definition round_float :: "real \<Rightarrow> pyfloat" where
  "round_float r =
     (if float_overflow \<le> r then PosInf
      else if r \<le> - float_overflow then NegInf
      else if abs r \<le> float_underflow then Finite 0
      else Finite r)"

text \<open>\<open>a < b\<close> on floats: false whenever one of them is NaN.\<close>

fun float_less :: "pyfloat \<Rightarrow> pyfloat \<Rightarrow> bool" where
  "float_less (Finite a) (Finite b) = (a < b)"
| "float_less (Finite a) PosInf = True"
| "float_less NegInf (Finite b) = True"
| "float_less NegInf PosInf = True"
| "float_less a b = False"

section \<open>The line interpreter: \<open>GCodeProcessor\<close> of gcode_handler.py\<close>

text \<open>Strings are byte strings, and only ASCII letters change case.\<close>

subsection \<open>String helpers: \<open>str.strip\<close>, \<open>str.split\<close>, \<open>str.upper\<close>\<close>

text \<open>Blanks are the six ASCII ones: space, tab, line feed, vertical tab, form feed, return.\<close>

definition is_space :: "char \<Rightarrow> bool" where
  "is_space c \<longleftrightarrow>
     c = CHR '' '' \<or> c = CHR 0x09 \<or> c = CHR 0x0A \<or> c = CHR 0x0B \<or> c = CHR 0x0C \<or> c = CHR 0x0D"

definition strip :: "string \<Rightarrow> string" where
  "strip s = rev (dropWhile is_space (rev (dropWhile is_space s)))"

text \<open>
  \<open>s.split()\<close>: the maximal runs of non-blank characters, in order. The first argument
  holds the characters of the run being read, most recent first.
\<close>

fun split_acc :: "string \<Rightarrow> string \<Rightarrow> string list" where
  "split_acc cur [] = (if cur = [] then [] else [rev cur])"
| "split_acc cur (c # cs) =
     (if is_space c
      then (if cur = [] then split_acc [] cs else rev cur # split_acc [] cs)
      else split_acc (c # cur) cs)"

definition split :: "string \<Rightarrow> string list" where
  "split s = split_acc [] s"

definition upper_char :: "char \<Rightarrow> char" where
  "upper_char c =
     (if CHR ''a'' \<le> c \<and> c \<le> CHR ''z'' then char_of (of_char c - (32::nat)) else c)"

definition upper :: "string \<Rightarrow> string" where
  "upper s = map upper_char s"

definition lower_char :: "char \<Rightarrow> char" where
  "lower_char c =
     (if CHR ''A'' \<le> c \<and> c \<le> CHR ''Z'' then char_of (of_char c + (32::nat)) else c)"

subsection \<open>\<open>float(str)\<close>\<close>

text \<open>
  \<open>float\<close> accepts an optional sign followed by a number or, in any case of the
  letters, by \<open>inf\<close>, \<open>infinity\<close> or \<open>nan\<close>. A number has digits with an optional
  fraction (at least one digit on one side of the point) and an optional exponent;
  between two digits there may be one underscore. Anything else raises \<open>ValueError\<close>,
  here \<open>None\<close>.
\<close>

definition is_digit :: "char \<Rightarrow> bool" where
  "is_digit c \<longleftrightarrow> CHR ''0'' \<le> c \<and> c \<le> CHR ''9''"

definition digit_val :: "char \<Rightarrow> nat" where
  "digit_val c = of_char c - 48"

definition digits_val :: "string \<Rightarrow> nat" where
  "digits_val ds = foldl (\<lambda>n c. 10 * n + digit_val c) 0 ds"

text \<open>Digits with single underscores between them: the test, and the digits alone.\<close>

fun digit_part :: "string \<Rightarrow> bool" where
  "digit_part [] = False"
| "digit_part [c] = is_digit c"
| "digit_part (c # d # cs) =
     (is_digit c \<and> (if d = CHR ''_'' then digit_part cs else digit_part (d # cs)))"

definition digits_of :: "string \<Rightarrow> string" where
  "digits_of s = filter is_digit s"

text \<open>An optional sign: the sign read, and the rest of the text.\<close>

fun take_sign :: "string \<Rightarrow> bool \<times> string" where
  "take_sign [] = (False, [])"
| "take_sign (c # cs) =
     (if c = CHR ''-'' then (True, cs)
      else if c = CHR ''+'' then (False, cs)
      else (False, c # cs))"

text \<open>The exponent part: empty, or \<open>e\<close>/\<open>E\<close>, an optional sign and digits.\<close>

fun exponent :: "string \<Rightarrow> int option" where
  "exponent [] = Some 0"
| "exponent (c # cs) =
     (if c = CHR ''e'' \<or> c = CHR ''E'' then
        (case take_sign cs of (neg, ds) \<Rightarrow>
           if digit_part ds
           then Some (if neg then - int (digits_val (digits_of ds)) else int (digits_val (digits_of ds)))
           else None)
      else None)"

definition scale10 :: "real \<Rightarrow> int \<Rightarrow> real" where
  "scale10 m e = (if 0 \<le> e then m * 10 ^ nat e else m / 10 ^ nat (- e))"

text \<open>
  The number before the exponent: the digits before the point, and those after it.
  \<open>None\<close> when the text is not of that form.
\<close>

definition mantissa :: "string \<Rightarrow> (string \<times> string) option" where
  "mantissa s =
     (let ip = takeWhile (\<lambda>c. c \<noteq> CHR ''.'') s;
          rest = dropWhile (\<lambda>c. c \<noteq> CHR ''.'') s
      in case rest of
           [] \<Rightarrow> if digit_part ip then Some (digits_of ip, []) else None
         | dot # fp \<Rightarrow>
             if (ip = [] \<or> digit_part ip) \<and> (fp = [] \<or> digit_part fp) \<and> \<not> (ip = [] \<and> fp = [])
             then Some (digits_of ip, digits_of fp)
             else None)"

definition is_exp_mark :: "char \<Rightarrow> bool" where
  "is_exp_mark c \<longleftrightarrow> c = CHR ''e'' \<or> c = CHR ''E''"

definition py_float :: "string \<Rightarrow> pyfloat option" where
  "py_float s =
     (case take_sign s of (neg, s1) \<Rightarrow>
        if map lower_char s1 = ''inf'' \<or> map lower_char s1 = ''infinity''
        then Some (if neg then NegInf else PosInf)
        else if map lower_char s1 = ''nan'' then Some NaN
        else
          (case mantissa (takeWhile (\<lambda>c. \<not> is_exp_mark c) s1) of
             None \<Rightarrow> None
           | Some (ip, fp) \<Rightarrow>
               (case exponent (dropWhile (\<lambda>c. \<not> is_exp_mark c) s1) of
                  None \<Rightarrow> None
                | Some e \<Rightarrow>
                    let m = real (digits_val ip) + real (digits_val fp) / 10 ^ length fp
                    in Some (round_float (scale10 (if neg then - m else m) e)))))"

subsection \<open>The processor and \<open>parse_line\<close>\<close>

text \<open>
  Of the processor's attributes, \<open>parse_line\<close> reads \<open>verbose\<close> and reads and writes
  \<open>last_e_value\<close>. \<open>warnings\<close> counts the messages printed at level \<open>LOG_WARN\<close>; the
  messages at the levels \<open>LOG_INFO\<close> and \<open>LOG_DEBUG\<close> are left out.
\<close>

record processor =
  verbose :: int
  last_e_value :: pyfloat
  warnings :: nat

definition LOG_WARN :: int where
  "LOG_WARN = 0"

definition log_warn :: "processor \<Rightarrow> processor" where
  "log_warn p = (if verbose p \<ge> LOG_WARN then p\<lparr>warnings := warnings p + 1\<rparr> else p)"

text \<open>
  The loop over \<open>parts[1:]\<close>. The \<open>try\<close> encloses the whole \<open>for\<close> statement, so a
  \<open>ValueError\<close> from \<open>float\<close> leaves the loop: the result is the dictionary built so
  far, and \<open>True\<close> says that the \<open>except\<close> branch ran.
\<close>

fun parse_params :: "(char \<rightharpoonup> pyfloat) \<Rightarrow> string list \<Rightarrow> (char \<rightharpoonup> pyfloat) \<times> bool" where
  "parse_params raw_params [] = (raw_params, False)"
| "parse_params raw_params (part0 # parts) =
     (let part = strip part0 in
      if length part \<ge> 2 then
        (let param_code = upper_char (hd part) in
         if CHR ''A'' \<le> param_code \<and> param_code \<le> CHR ''Z'' then
           (case py_float (tl part) of
              None \<Rightarrow> (raw_params, True)
            | Some param_value \<Rightarrow> parse_params (raw_params(param_code \<mapsto> param_value)) parts)
         else parse_params raw_params parts)
      else parse_params raw_params parts)"

text \<open>The dictionary \<open>parsed_data\<close> that \<open>parse_line\<close> returns for G0 and G1.\<close>

record parsed_data =
  pd_command :: string
  pd_extruding :: bool
  pd_X :: "pyfloat option"
  pd_Y :: "pyfloat option"
  pd_Z :: "pyfloat option"

text \<open>The text before the first \<open>;\<close>, stripped.\<close>

definition cleaned_line :: "string \<Rightarrow> string" where
  "cleaned_line gcode_line = strip (takeWhile (\<lambda>c. c \<noteq> CHR '';'') gcode_line)"

text \<open>The branches of \<open>parse_line\<close> on the command, once the parameters are read.\<close>

definition dispatch :: "string \<Rightarrow> (char \<rightharpoonup> pyfloat) \<Rightarrow> processor \<Rightarrow> parsed_data option \<times> processor" where
  "dispatch cmd raw_params p =
     (if cmd = ''G0'' \<or> cmd = ''G1'' then
        (let parsed = \<lparr>pd_command = cmd, pd_extruding = False,
                       pd_X = raw_params (CHR ''X''), pd_Y = raw_params (CHR ''Y''),
                       pd_Z = raw_params (CHR ''Z'')\<rparr>
         in case raw_params (CHR ''E'') of
              None \<Rightarrow> (Some parsed, p)
            | Some current_e \<Rightarrow>
                if float_less (last_e_value p) current_e
                then (Some (parsed\<lparr>pd_extruding := True\<rparr>), p\<lparr>last_e_value := current_e\<rparr>)
                else (Some parsed, p))
      else if cmd = ''G92'' then
        (case raw_params (CHR ''E'') of
           None \<Rightarrow> (None, p)
         | Some new_e \<Rightarrow> (None, p\<lparr>last_e_value := new_e\<rparr>))
      else (None, p))"

definition parse_line :: "string \<Rightarrow> processor \<Rightarrow> parsed_data option \<times> processor" where
  "parse_line gcode_line p =
     (let cleaned = cleaned_line gcode_line in
      if cleaned = [] then (None, p)
      else case split cleaned of
             [] \<Rightarrow> (None, p)
           | c # ps \<Rightarrow>
               (case parse_params Map.empty ps of
                  (raw_params, raised) \<Rightarrow>
                    dispatch (upper c) raw_params (if raised then log_warn p else p)))"

text \<open>A processor as \<open>main.py\<close> creates it: \<open>verbose = 0\<close>, \<open>last_e_value = 0.0\<close>.\<close>

definition init_processor :: processor where
  "init_processor = \<lparr>verbose = 0, last_e_value = Finite 0, warnings = 0\<rparr>"

text \<open>The parts of a line and its command, and what the loop of \<open>parse_line\<close> makes of it.\<close>

definition line_parts :: "string \<Rightarrow> string list" where
  "line_parts gcode_line = split (cleaned_line gcode_line)"

definition line_command :: "string \<Rightarrow> string option" where
  "line_command gcode_line =
     (case line_parts gcode_line of [] \<Rightarrow> None | c # ps \<Rightarrow> Some (upper c))"

definition line_params :: "string \<Rightarrow> (char \<rightharpoonup> pyfloat)" where
  "line_params gcode_line = fst (parse_params Map.empty (tl (line_parts gcode_line)))"

definition line_raised :: "string \<Rightarrow> bool" where
  "line_raised gcode_line = snd (parse_params Map.empty (tl (line_parts gcode_line)))"

definition is_move :: "string \<Rightarrow> bool" where
  "is_move gcode_line \<longleftrightarrow>
     line_command gcode_line = Some ''G0'' \<or> line_command gcode_line = Some ''G1''"

definition is_G92 :: "string \<Rightarrow> bool" where
  "is_G92 gcode_line \<longleftrightarrow> line_command gcode_line = Some ''G92''"

text \<open>A parameter token that the loop passes over: the two outer tests fail.\<close>

definition ignored_token :: "string \<Rightarrow> bool" where
  "ignored_token part \<longleftrightarrow>
     length (strip part) < 2 \<or>
     \<not> (CHR ''A'' \<le> upper_char (hd (strip part)) \<and> upper_char (hd (strip part)) \<le> CHR ''Z'')"

subsection \<open>The parameters of a line in the words of the specification\<close>

text \<open>
  A malformed parameter: a letter followed by something that is not a number. A line
  is well formed when none of its parameters is malformed.
\<close>

definition malformed :: "string \<Rightarrow> bool" where
  "malformed part \<longleftrightarrow> \<not> ignored_token part \<and> py_float (tl (strip part)) = None"

definition well_formed :: "string \<Rightarrow> bool" where
  "well_formed gcode_line \<longleftrightarrow> list_all (\<lambda>t. \<not> malformed t) (tl (line_parts gcode_line))"

text \<open>
  The parameters present in a line: every token is looked at on its own; a letter
  with a number gives a parameter, the last one winning, and any other token is
  skipped. This does not depend on what \<open>parse_params\<close> does.
\<close>

fun present_params :: "(char \<rightharpoonup> pyfloat) \<Rightarrow> string list \<Rightarrow> (char \<rightharpoonup> pyfloat)" where
  "present_params found [] = found"
| "present_params found (t # ts) =
     (if ignored_token t then present_params found ts
      else (case py_float (tl (strip t)) of
              None \<Rightarrow> present_params found ts
            | Some v \<Rightarrow> present_params (found(upper_char (hd (strip t)) \<mapsto> v)) ts))"

definition present_E :: "string \<Rightarrow> pyfloat option" where
  "present_E gcode_line = present_params Map.empty (tl (line_parts gcode_line)) (CHR ''E'')"

text \<open>Feeding the lines of a file to one processor, in order.\<close>

fun run_lines :: "string list \<Rightarrow> processor \<Rightarrow> processor" where
  "run_lines [] p = p"
| "run_lines (l # ls) p = run_lines ls (snd (parse_line l p))"

text \<open>
  The bookkeeping of the extrusion watermark in the words of the specification: the
  value of the last reset (a G92 line with an E parameter; before any reset, the value
  the processor started with), and the E values of the G0/G1 lines read since then.
\<close>

definition track :: "pyfloat \<times> pyfloat list \<Rightarrow> string \<Rightarrow> pyfloat \<times> pyfloat list" where
  "track bs gcode_line =
     (case present_E gcode_line of
        None \<Rightarrow> bs
      | Some e \<Rightarrow>
          if is_G92 gcode_line then (e, [])
          else if is_move gcode_line then (fst bs, snd bs @ [e])
          else bs)"

definition reset_value :: "pyfloat \<Rightarrow> string list \<Rightarrow> pyfloat" where
  "reset_value w0 ls = fst (foldl track (w0, []) ls)"

definition e_seen_since_reset :: "pyfloat \<Rightarrow> string list \<Rightarrow> pyfloat list" where
  "e_seen_since_reset w0 ls = snd (foldl track (w0, []) ls)"

section \<open>The printer: \<open>Printer\<close> of printer.py\<close>

subsection \<open>Hardware: commands sent and values read\<close>

datatype motor = x_motor | y_motor | z_motor | e_motor

datatype sensor = x_sensor | y_sensor | z_sensor

datatype stop = BRAKE | HOLD

datatype button = LEFT | RIGHT | UP | DOWN | CENTER

text \<open>
  What the program does to the hardware, in the order it does it: the motor commands
  with their arguments (\<open>run_target speed target then wait\<close> and so on), the pauses
  \<open>wait(ms)\<close>, and each poll of \<open>x_motor.control.done() and y_motor.control.done()\<close>
  with its answer. The display, the speaker and the log are left out.
\<close>

datatype action =
    Run motor real
  | RunAngle motor real real stop bool
  | RunTarget motor real real stop bool
  | RunUntilStalled motor real stop int
  | Brake motor
  | Hold motor
  | StopMotor motor
  | ResetAngle motor real
  | Wait nat
  | PollXYDone bool

text \<open>
  What the hardware reports at one poll. The program cannot know these values in
  advance, so a run is given the list of the readings its successive polls will see.
\<close>

record reading =
  buttons :: "button list"
  x_done :: bool
  y_done :: bool
  x_angle :: int
  y_angle :: int
  x_pressed :: bool
  y_pressed :: bool
  z_pressed :: bool

fun pressed :: "sensor \<Rightarrow> reading \<Rightarrow> bool" where
  "pressed x_sensor r = x_pressed r"
| "pressed y_sensor r = y_pressed r"
| "pressed z_sensor r = z_pressed r"

text \<open>
  \<open>NoMoreReadings\<close>: the program polls again and the list of readings is used up; a
  polling loop that never ends uses up every list. The other faults are Python's
  exceptions; none of them is caught.
\<close>

datatype fault =
  NoMoreReadings | UnboundLocalError | ZeroDivisionError | OverflowError | ValueError

record printer =
  extruding :: bool
  actions :: "action list"
  readings :: "reading list"

definition issue :: "action list \<Rightarrow> printer \<Rightarrow> printer" where
  "issue as p = p\<lparr>actions := actions p @ as\<rparr>"

subsection \<open>The constants of \<open>__init__\<close>\<close>

definition xy_speed :: real where "xy_speed = 90"
definition z_speed :: real where "z_speed = 1000"
definition e_speed :: real where "e_speed = 500"
definition max_xy_speed_multiplier :: real where "max_xy_speed_multiplier = 3"
definition x_mm_per_degree :: real where "x_mm_per_degree = 4 / 45"
definition y_mm_per_degree :: real where "y_mm_per_degree = 4 / 45"
definition z_mm_per_degree :: real where "z_mm_per_degree = 8 / 45"

subsection \<open>The extruder\<close>

definition start_extruding :: "printer \<Rightarrow> printer" where
  "start_extruding p = issue [RunUntilStalled e_motor e_speed HOLD 40, Wait 450] p"

definition stop_extruding :: "printer \<Rightarrow> printer" where
  "stop_extruding p = issue [RunUntilStalled e_motor (- e_speed) BRAKE 40] p"

definition extrude :: "bool \<Rightarrow> printer \<Rightarrow> printer" where
  "extrude want p =
     (if want \<and> \<not> extruding p then start_extruding (p\<lparr>extruding := True\<rparr>)
      else if \<not> want \<and> extruding p then stop_extruding (p\<lparr>extruding := False\<rparr>)
      else p)"

subsection \<open>Moves\<close>

definition calculate_velocity_components :: "real \<Rightarrow> real \<Rightarrow> real \<Rightarrow> real \<Rightarrow> real \<Rightarrow> real \<times> real" where
  "calculate_velocity_components current_x current_y target_x target_y target_speed =
     (let dx = target_x - current_x;
          dy = target_y - current_y;
          distance = sqrt (dx * dx + dy * dy)
      in if distance < 0.05 then (0, 0)
         else
           (let inv_distance = 1 / distance;
                vx = dx * inv_distance * target_speed;
                vy = dy * inv_distance * target_speed
            in (if abs dx < 0.05 then 0 else vx, if abs dy < 0.05 then 0 else vy)))"

text \<open>Python's \<open>int\<close> of a float: the fraction is dropped, towards zero.\<close>

definition py_int :: "real \<Rightarrow> int" where
  "py_int r = (if 0 \<le> r then \<lfloor>r\<rfloor> else \<lceil>r\<rceil>)"

text \<open>
  The loop \<open>while not (x done and y done) and not CENTER in pressed: wait(5)\<close>: the
  actions of the loop, the reading that ended it, and the readings left.
\<close>

fun wait_xy :: "reading list \<Rightarrow> (action list \<times> reading \<times> reading list) option" where
  "wait_xy [] = None"
| "wait_xy (r # rs) =
     (if \<not> (x_done r \<and> y_done r) \<and> CENTER \<notin> set (buttons r)
      then (case wait_xy rs of
              None \<Rightarrow> None
            | Some (as, r', rs') \<Rightarrow> Some (PollXYDone False # Wait 5 # as, r', rs'))
      else Some ([PollXYDone (x_done r \<and> y_done r)], r, rs))"

text \<open>
  \<open>int(v / mm_per_degree)\<close>, the conversion of a coordinate to degrees: \<open>int\<close> raises
  \<open>ValueError\<close> on NaN and \<open>OverflowError\<close> on an infinity, which the quotient also
  is when it is beyond the range of a float.
\<close>

definition to_degrees :: "pyfloat \<Rightarrow> real \<Rightarrow> fault + int" where
  "to_degrees v mm_per_degree =
     (case v of
        NaN \<Rightarrow> Inl ValueError
      | PosInf \<Rightarrow> Inl OverflowError
      | NegInf \<Rightarrow> Inl OverflowError
      | Finite r \<Rightarrow>
          (case round_float (r / mm_per_degree) of
             Finite q \<Rightarrow> Inr (py_int q)
           | PosInf \<Rightarrow> Inl OverflowError
           | NegInf \<Rightarrow> Inl OverflowError
           | NaN \<Rightarrow> Inl ValueError))"

text \<open>
  \<open>calculate_velocity_components\<close> as \<open>move\<close> calls it, on floats. When an operand
  is infinite or NaN, or the sum of the squares is beyond the range of a float, the
  distance is infinite or NaN; then no exception is raised and each component comes
  out as 0 or NaN, so that neither exceeds 2 in magnitude: \<open>None\<close>.
\<close>

fun float_velocity :: "pyfloat \<Rightarrow> pyfloat \<Rightarrow> pyfloat \<Rightarrow> pyfloat \<Rightarrow> real \<Rightarrow> (real \<times> real) option" where
  "float_velocity (Finite current_x) (Finite current_y) (Finite target_x) (Finite target_y) target_speed =
     (if (target_x - current_x) * (target_x - current_x) +
         (target_y - current_y) * (target_y - current_y) < float_overflow
      then Some (calculate_velocity_components current_x current_y target_x target_y target_speed)
      else None)"
| "float_velocity current_x current_y target_x target_y target_speed = None"

text \<open>
  \<open>move\<close>. The speeds are computed first; then the three conversions to degrees, each
  of which may raise; a command other than G0 and G1 leaves \<open>x_speed\<close> unbound, and
  its first use, after the conversions, raises. Every raise comes before the first
  command to a motor. The motor angles are those of the reading that ended the wait.
\<close>

definition move :: "pyfloat \<Rightarrow> pyfloat \<Rightarrow> pyfloat \<Rightarrow> pyfloat \<Rightarrow> pyfloat \<Rightarrow> pyfloat \<Rightarrow> string \<Rightarrow> printer \<Rightarrow> fault + printer" where
  "move x y z prev_x prev_y prev_z command p =
     (let speeds = (if command = ''G1''
                    then float_velocity prev_x prev_y x y xy_speed
                    else float_velocity prev_x prev_y x y (xy_speed * max_xy_speed_multiplier))
      in case to_degrees x x_mm_per_degree of
           Inl e \<Rightarrow> Inl e
         | Inr xd \<Rightarrow>
      (case to_degrees y y_mm_per_degree of
           Inl e \<Rightarrow> Inl e
         | Inr yd \<Rightarrow>
      (case to_degrees z z_mm_per_degree of
           Inl e \<Rightarrow> Inl e
         | Inr zd \<Rightarrow>
             if command \<noteq> ''G1'' \<and> command \<noteq> ''G0'' then Inl UnboundLocalError
             else
               (let p1 = (if float_less prev_z (Finite (real_of_int zd))
                          then issue [RunTarget z_motor z_speed (real_of_int zd) BRAKE True] p
                          else p)
                in case wait_xy (readings p1) of
                     None \<Rightarrow> Inl NoMoreReadings
                   | Some (ws, r, rs) \<Rightarrow>
                       let p2 = issue ws (p1\<lparr>readings := rs\<rparr>);
                           p3 = (case speeds of
                                   None \<Rightarrow> p2
                                 | Some (x_speed, y_speed) \<Rightarrow>
                                     if abs x_speed > 2 \<and> abs (x_angle r - xd) > 2
                                     then issue [RunTarget x_motor x_speed (real_of_int xd) HOLD False] p2
                                     else p2);
                           p4 = (case speeds of
                                   None \<Rightarrow> p3
                                 | Some (x_speed, y_speed) \<Rightarrow>
                                     if abs y_speed > 2 \<and> abs (y_angle r - yd) > 2
                                     then issue [RunTarget y_motor y_speed (real_of_int yd) HOLD False] p3
                                     else p3)
                       in Inr (if float_less (Finite (real_of_int zd)) prev_z
                               then issue [RunTarget z_motor z_speed (real_of_int zd) BRAKE True] p4
                               else p4)))))"

subsection \<open>Homing\<close>

text \<open>The loop \<open>while not sensor.pressed(): wait(5)\<close>.\<close>

fun wait_pressed :: "sensor \<Rightarrow> reading list \<Rightarrow> (action list \<times> reading list) option" where
  "wait_pressed s [] = None"
| "wait_pressed s (r # rs) =
     (if \<not> pressed s r
      then (case wait_pressed s rs of
              None \<Rightarrow> None
            | Some (as, rs') \<Rightarrow> Some (Wait 5 # as, rs'))
      else Some ([], rs))"

text \<open>
  The two seeks of one axis, \<open>home_xy\<close> and \<open>home_z\<close> of the source: they differ in
  the speeds and in the angle of the retreat.
\<close>

definition seek :: "motor \<Rightarrow> sensor \<Rightarrow> real \<Rightarrow> real \<Rightarrow> real \<Rightarrow> real \<Rightarrow> printer \<Rightarrow> fault + printer" where
  "seek m s fast back_speed back_angle slow p =
     (case wait_pressed s (readings p) of
        None \<Rightarrow> Inl NoMoreReadings
      | Some (ws1, rs1) \<Rightarrow>
          (case wait_pressed s rs1 of
             None \<Rightarrow> Inl NoMoreReadings
           | Some (ws2, rs2) \<Rightarrow>
               Inr (issue ([Run m fast] @ ws1 @
                           [Brake m, RunAngle m back_speed back_angle BRAKE True, Run m slow] @
                           ws2 @ [Hold m])
                      (p\<lparr>readings := rs2\<rparr>))))"

definition home_xy :: "motor \<Rightarrow> sensor \<Rightarrow> printer \<Rightarrow> fault + printer" where
  "home_xy m s p = seek m s (- 2.5 * xy_speed) xy_speed 45 (- 0.5 * xy_speed) p"

definition home_z :: "motor \<Rightarrow> sensor \<Rightarrow> printer \<Rightarrow> fault + printer" where
  "home_z m s p = seek m s (- z_speed) z_speed 8 (- 0.25 * z_speed) p"

definition offset :: "motor \<Rightarrow> real \<Rightarrow> real \<Rightarrow> printer \<Rightarrow> printer" where
  "offset m off speed p =
     issue ((if off \<noteq> 0 then [RunAngle m speed off HOLD True, Wait 500] else []) @
            [ResetAngle m 0, StopMotor m]) p"

text \<open>
  The four offsets that \<open>home\<close> makes once the three axes are at their sensors, with
  the four configured values as parameters, and the values the source sets.
\<close>

definition offset_sequence :: "real \<Rightarrow> real \<Rightarrow> real \<Rightarrow> real \<Rightarrow> printer \<Rightarrow> printer" where
  "offset_sequence Z_offset_up X_offset Y_offset Z_offset_down p =
     offset z_motor Z_offset_down z_speed
       (offset y_motor Y_offset xy_speed
          (offset x_motor X_offset xy_speed
             (offset z_motor Z_offset_up z_speed p)))"

definition home :: "printer \<Rightarrow> fault + printer" where
  "home p =
     (case home_xy x_motor x_sensor p of
        Inl e \<Rightarrow> Inl e
      | Inr p1 \<Rightarrow>
          (case home_xy y_motor y_sensor p1 of
             Inl e \<Rightarrow> Inl e
           | Inr p2 \<Rightarrow>
               (case home_z z_motor z_sensor p2 of
                  Inl e \<Rightarrow> Inl e
                | Inr p3 \<Rightarrow> Inr (offset_sequence 18 290 0 (- 11.25) p3))))"

section \<open>The print loop of main.py\<close>

record job =
  the_processor :: processor
  the_printer :: printer
  current_x :: pyfloat
  current_y :: pyfloat
  current_z :: pyfloat

text \<open>The loop \<open>while printer.ev3.buttons.pressed(): wait(100)\<close>.\<close>

fun wait_released :: "reading list \<Rightarrow> (action list \<times> reading list) option" where
  "wait_released [] = None"
| "wait_released (r # rs) =
     (if buttons r \<noteq> []
      then (case wait_released rs of
              None \<Rightarrow> None
            | Some (as, rs') \<Rightarrow> Some (Wait 100 # as, rs'))
      else Some ([], rs))"

text \<open>
  What the loop body does with a line that \<open>parse_line\<close> accepted. When the call of
  \<open>move\<close> does not return, the program ends there: the result is the fault and the
  job as it was when \<open>move\<close> was called.
\<close>

definition execute :: "parsed_data \<Rightarrow> job \<Rightarrow> (fault \<times> job) + job" where
  "execute parsed_output j =
     (let target_x = (case pd_X parsed_output of Some v \<Rightarrow> v | None \<Rightarrow> current_x j);
          target_y = (case pd_Y parsed_output of Some v \<Rightarrow> v | None \<Rightarrow> current_y j);
          target_z = (case pd_Z parsed_output of Some v \<Rightarrow> v | None \<Rightarrow> current_z j);
          should_extrude = pd_extruding parsed_output;
          p1 = (if should_extrude then extrude should_extrude (the_printer j) else the_printer j)
      in case move target_x target_y target_z (current_x j) (current_y j) (current_z j)
                (pd_command parsed_output) p1 of
           Inl e \<Rightarrow> Inl (e, j\<lparr>the_printer := p1\<rparr>)
         | Inr p2 \<Rightarrow>
             Inr (j\<lparr>the_printer := (if \<not> should_extrude then extrude should_extrude p2 else p2),
                    current_x := target_x, current_y := target_y, current_z := target_z\<rparr>))"

text \<open>
  The loop over the lines of the file. Each turn first reads the buttons: when only
  the centre button is down, the loop waits for its release and ends.
\<close>

fun print_loop :: "string list \<Rightarrow> job \<Rightarrow> (fault \<times> job) + job" where
  "print_loop [] j = Inr j"
| "print_loop (line # lines) j =
     (case readings (the_printer j) of
        [] \<Rightarrow> Inl (NoMoreReadings, j)
      | r # rs \<Rightarrow>
          if buttons r = [CENTER] then
            (case wait_released rs of
               None \<Rightarrow> Inl (NoMoreReadings, j)
             | Some (ws, rs') \<Rightarrow> Inr (j\<lparr>the_printer := issue ws (the_printer j\<lparr>readings := rs'\<rparr>)\<rparr>))
          else
            (case parse_line line (the_processor j) of
               (parsed_output, proc) \<Rightarrow>
                 let j1 = j\<lparr>the_processor := proc, the_printer := the_printer j\<lparr>readings := rs\<rparr>\<rparr>
                 in (case parsed_output of
                       None \<Rightarrow> print_loop lines j1
                     | Some parsed \<Rightarrow>
                         (case execute parsed j1 of
                            Inl e \<Rightarrow> Inl e
                          | Inr j2 \<Rightarrow> print_loop lines j2))))"

text \<open>
  The job, from the first progress display to the call \<open>printer.extrude(False)\<close> that
  follows the loop. The first display divides by the number of lines. No exception is
  caught: a fault in the loop ends the program before that call.
\<close>

definition print_job :: "string list \<Rightarrow> job \<Rightarrow> (fault \<times> job) + job" where
  "print_job lines j =
     (if length lines = 0 then Inl (ZeroDivisionError, j)
      else (case print_loop lines j of
              Inl e \<Rightarrow> Inl e
            | Inr j' \<Rightarrow> Inr (j'\<lparr>the_printer := extrude False (the_printer j')\<rparr>)))"

text \<open>A job as \<open>main.py\<close> starts it after homing, on given readings.\<close>

definition init_printer :: "reading list \<Rightarrow> printer" where
  "init_printer rs = \<lparr>extruding = False, actions = [], readings = rs\<rparr>"

definition init_job :: "reading list \<Rightarrow> job" where
  "init_job rs = \<lparr>the_processor = init_processor, the_printer = init_printer rs,
                   current_x = Finite 0, current_y = Finite 0, current_z = Finite 0\<rparr>"

text \<open>Readings of a machine at rest: no button down, both motors done, everything at zero.\<close>

definition idle :: reading where
  "idle = \<lparr>buttons = [], x_done = True, y_done = True, x_angle = 0, y_angle = 0,
           x_pressed = True, y_pressed = True, z_pressed = True\<rparr>"

definition all_pressed :: "reading \<Rightarrow> bool" where
  "all_pressed r \<longleftrightarrow> x_pressed r \<and> y_pressed r \<and> z_pressed r"

definition quiet :: "reading \<Rightarrow> bool" where
  "quiet r \<longleftrightarrow> buttons r = [] \<and> x_done r \<and> y_done r"

text \<open>
  A number that \<open>move\<close> can convert to degrees on each axis, a job whose position is
  made of such numbers, and a line all of whose numbers are such.
\<close>

definition converts :: "pyfloat \<Rightarrow> real \<Rightarrow> bool" where
  "converts v mm_per_degree \<longleftrightarrow>
     (case to_degrees v mm_per_degree of Inl e \<Rightarrow> False | Inr d \<Rightarrow> True)"

definition safe_number :: "pyfloat \<Rightarrow> bool" where
  "safe_number v \<longleftrightarrow>
     converts v x_mm_per_degree \<and> converts v y_mm_per_degree \<and> converts v z_mm_per_degree"

definition safe_position :: "job \<Rightarrow> bool" where
  "safe_position j \<longleftrightarrow>
     converts (current_x j) x_mm_per_degree \<and> converts (current_y j) y_mm_per_degree \<and>
     converts (current_z j) z_mm_per_degree"

definition safe_line :: "string \<Rightarrow> bool" where
  "safe_line gcode_line \<longleftrightarrow>
     list_all (\<lambda>t. case py_float (tl (strip t)) of None \<Rightarrow> True | Some v \<Rightarrow> safe_number v)
       (tl (line_parts gcode_line))"

subsection \<open>Properties of a sequence of actions\<close>

text \<open>
  The actions of one \<open>move\<close>: polls and pauses of the wait for X and Y, commands to X
  and Y that return at once, and commands to Z that return when Z has arrived.
\<close>

fun move_action :: "action \<Rightarrow> bool" where
  "move_action (RunTarget m s a t w) =
     (if m = z_motor then t = BRAKE \<and> w else (m = x_motor \<or> m = y_motor) \<and> t = HOLD \<and> \<not> w)"
| "move_action (PollXYDone d) = True"
| "move_action (Wait n) = (n = 5)"
| "move_action a = False"

text \<open>A printer that differs from another by actions of a move added at the end.\<close>

definition move_extends :: "printer \<Rightarrow> printer \<Rightarrow> bool" where
  "move_extends p p' \<longleftrightarrow>
     (\<exists>mv. actions p' = actions p @ mv \<and> list_all move_action mv \<and>
           extruding p' = extruding p)"

text \<open>
  "The extruder is stopped only when the X and Y motions are complete", read on a
  sequence of actions: no command that stops the extruder comes while a command to X
  or Y that returned at once has not been followed by a poll that found both done.
  The first argument says whether such a command is outstanding.
\<close>

fun stops_after_completion :: "bool \<Rightarrow> action list \<Rightarrow> bool" where
  "stops_after_completion busy [] = True"
| "stops_after_completion busy (RunTarget m s a t w # as) =
     stops_after_completion (busy \<or> (\<not> w \<and> (m = x_motor \<or> m = y_motor))) as"
| "stops_after_completion busy (PollXYDone d # as) = stops_after_completion (busy \<and> \<not> d) as"
| "stops_after_completion busy (RunUntilStalled m s t d # as) =
     ((m = e_motor \<and> s < 0 \<longrightarrow> \<not> busy) \<and> stops_after_completion busy as)"
| "stops_after_completion busy (a # as) = stops_after_completion busy as"

text \<open>The two sequences of the extruder, and those a list of calls of \<open>extrude\<close> sets off.\<close>

definition engage :: "action list" where
  "engage = [RunUntilStalled e_motor e_speed HOLD 40, Wait 450]"

definition disengage :: "action list" where
  "disengage = [RunUntilStalled e_motor (- e_speed) BRAKE 40]"

fun extrude_calls :: "bool list \<Rightarrow> printer \<Rightarrow> printer" where
  "extrude_calls [] p = p"
| "extrude_calls (want # wants) p = extrude_calls wants (extrude want p)"

text \<open>The calls that change the state: each one that differs from the state before it.\<close>

fun transitions :: "bool \<Rightarrow> bool list \<Rightarrow> bool list" where
  "transitions state [] = []"
| "transitions state (want # wants) =
     (if want = state then transitions state wants else want # transitions want wants)"

text \<open>One step of the offset sequence, as a list of actions.\<close>

definition offset_step :: "motor \<Rightarrow> real \<Rightarrow> real \<Rightarrow> action list" where
  "offset_step m off speed =
     (if off \<noteq> 0 then [RunAngle m speed off HOLD True, Wait 500] else []) @
     [ResetAngle m 0, StopMotor m]"

section \<open>The bounds of the floats\<close>

lemma float_overflow_power: "float_overflow = 2 ^ 1024 - 2 ^ 970"
  by (simp add: float_overflow_def)

lemma float_underflow_power: "float_underflow = 1 / 2 ^ 1075"
  by (simp add: float_underflow_def)

section \<open>Properties of the line interpreter\<close>

subsection \<open>How \<open>parse_line\<close> depends on the parts of the line\<close>

lemma split_Nil: "split [] = []"
  by (simp add: split_def)

lemma parse_line_no_parts: "line_parts l = [] \<Longrightarrow> parse_line l p = (None, p)"
  by (simp add: parse_line_def line_parts_def Let_def)

lemma parse_line_parts:
  assumes "line_parts l = c # ps"
  shows "parse_line l p =
           (case parse_params Map.empty ps of
              (raw_params, raised) \<Rightarrow> dispatch (upper c) raw_params (if raised then log_warn p else p))"
proof -
  from assms have "cleaned_line l \<noteq> []"
    using split_Nil by (auto simp: line_parts_def)
  with assms show ?thesis
    by (simp add: parse_line_def line_parts_def Let_def)
qed

lemma parse_line_command:
  assumes "line_command l = Some cmd"
  shows "parse_line l p = dispatch cmd (line_params l) (if line_raised l then log_warn p else p)"
proof -
  from assms obtain c ps where cps: "line_parts l = c # ps" and cmd: "cmd = upper c"
    by (auto simp: line_command_def split: list.splits)
  show ?thesis
    by (simp add: parse_line_parts [OF cps] cps cmd line_params_def line_raised_def split: prod.splits)
qed

lemma parse_line_other:
  assumes "line_command l = None"
  shows "parse_line l p = (None, p)"
  using assms by (auto simp: line_command_def parse_line_no_parts split: list.splits)

lemma last_e_log_warn [simp]: "last_e_value (log_warn p) = last_e_value p"
  by (simp add: log_warn_def)

lemma last_e_parse_line:
  "last_e_value (snd (parse_line l p)) =
     (case line_params l (CHR ''E'') of
        None \<Rightarrow> last_e_value p
      | Some e \<Rightarrow>
          if is_G92 l then e
          else if is_move l then (if float_less (last_e_value p) e then e else last_e_value p)
          else last_e_value p)"
proof (cases "line_command l")
  case None
  then show ?thesis
    by (simp add: parse_line_other is_G92_def is_move_def split: option.splits)
next
  case (Some cmd)
  show ?thesis
    by (auto simp: parse_line_command [OF Some] dispatch_def is_G92_def is_move_def Some
        Let_def split: option.splits)
qed

lemma parse_line_move:
  assumes "is_move l"
  shows "\<exists>parsed. fst (parse_line l p) = Some parsed \<and>
           (pd_extruding parsed \<longleftrightarrow>
              (\<exists>e. line_params l (CHR ''E'') = Some e \<and> float_less (last_e_value p) e)) \<and>
           (pd_extruding parsed \<longrightarrow>
              line_params l (CHR ''E'') = Some (last_e_value (snd (parse_line l p)))) \<and>
           (\<not> pd_extruding parsed \<longrightarrow> last_e_value (snd (parse_line l p)) = last_e_value p)"
proof -
  from assms obtain cmd where c: "line_command l = Some cmd" and g: "cmd = ''G0'' \<or> cmd = ''G1''"
    by (auto simp: is_move_def)
  show ?thesis
    using g by (auto simp: parse_line_command [OF c] dispatch_def Let_def split: option.splits)
qed

subsection \<open>Well-formed lines\<close>

lemma parse_params_well_formed:
  "list_all (\<lambda>t. \<not> malformed t) ts \<Longrightarrow> parse_params raw ts = (present_params raw ts, False)"
proof (induction ts arbitrary: raw)
  case Nil
  show ?case by simp
next
  case (Cons t ts)
  then have ts: "list_all (\<lambda>t. \<not> malformed t) ts" and t: "\<not> malformed t"
    by simp_all
  show ?case
  proof (cases "ignored_token t")
    case True
    then have "parse_params raw (t # ts) = parse_params raw ts"
      by (auto simp: ignored_token_def Let_def)
    with True Cons.IH [OF ts] show ?thesis by simp
  next
    case False
    with t obtain v where v: "py_float (tl (strip t)) = Some v"
      by (auto simp: malformed_def)
    from False have a: "parse_params raw (t # ts) =
        parse_params (raw(upper_char (hd (strip t)) \<mapsto> v)) ts"
      by (simp add: ignored_token_def Let_def v del: fun_upd_apply)
    from False v have b: "present_params raw (t # ts) =
        present_params (raw(upper_char (hd (strip t)) \<mapsto> v)) ts"
      by (simp del: fun_upd_apply)
    show ?thesis
      unfolding a b by (rule Cons.IH [OF ts])
  qed
qed

lemma well_formed_params:
  assumes "well_formed l"
  shows "line_params l (CHR ''E'') = present_E l" and "\<not> line_raised l"
  using parse_params_well_formed [of "tl (line_parts l)" Map.empty] assms
  by (simp_all add: well_formed_def line_params_def present_E_def line_raised_def)

subsection \<open>Tokens that are passed over\<close>

lemma parse_params_ignored:
  "parse_params raw (filter (\<lambda>t. \<not> ignored_token t) ts) = parse_params raw ts"
proof (induction ts arbitrary: raw)
  case Nil
  show ?case by simp
next
  case (Cons t ts)
  show ?case
  proof (cases "ignored_token t")
    case True
    then have "parse_params raw (t # ts) = parse_params raw ts"
      by (auto simp: ignored_token_def Let_def)
    with True Cons show ?thesis by simp
  next
    case False
    then have step: "parse_params r (t # us) =
        (case py_float (tl (strip t)) of
           None \<Rightarrow> (r, True)
         | Some v \<Rightarrow> parse_params (r(upper_char (hd (strip t)) \<mapsto> v)) us)" for r us
      by (simp add: ignored_token_def Let_def)
    from False have "filter (\<lambda>t. \<not> ignored_token t) (t # ts) = t # filter (\<lambda>t. \<not> ignored_token t) ts"
      by simp
    then show ?thesis
      by (simp only: step Cons)
  qed
qed

lemma example_short_token:
  "parse_line ''G1 X Y5'' init_processor =
     (Some \<lparr>pd_command = ''G1'', pd_extruding = False, pd_X = None, pd_Y = Some (Finite 5), pd_Z = None\<rparr>,
      init_processor)"
  by code_simp

text \<open>A token that passes the two outer tests and is not a number ends the loop.\<close>

lemma parse_params_stops:
  "malformed t \<Longrightarrow> parse_params raw (t # ts) = (raw, True)"
  by (simp add: malformed_def ignored_token_def Let_def)

text \<open>
  C2. The claim: a parameter whose value is not a number is skipped with one warning
  and the rest of the line is still read, so that \<open>G1 Xfoo Y5\<close> gives a command with
  Y = 5, without X, and one warning. The code at this line: the \<open>ValueError\<close> of
  \<open>Xfoo\<close> ends the loop over the parameters, one warning is printed, and the command
  returned has neither X nor Y.
\<close>

theorem parse_line_malformed_parameter:
  "parse_line ''G1 Xfoo Y5'' init_processor =
     (Some \<lparr>pd_command = ''G1'', pd_extruding = False, pd_X = None, pd_Y = None, pd_Z = None\<rparr>,
      init_processor\<lparr>warnings := 1\<rparr>)"
  by code_simp

text \<open>
  C10. A parameter token of fewer than two characters, or one whose first character
  is not a letter A to Z after upcasing, is passed over: the parameters read and the
  warning flag are those of the tokens without it, a line gives the same result and
  the same processor as the line without such tokens, and \<open>G1 X Y5\<close> gives a command
  with Y = 5, without X, and no warning.
\<close>

theorem short_tokens_ignored:
  "parse_params raw (filter (\<lambda>t. \<not> ignored_token t) ts) = parse_params raw ts \<and>
   (line_parts l = c # ts \<longrightarrow> line_parts l' = c # filter (\<lambda>t. \<not> ignored_token t) ts \<longrightarrow>
      parse_line l p = parse_line l' p) \<and>
   parse_line ''G1 X Y5'' init_processor =
     (Some \<lparr>pd_command = ''G1'', pd_extruding = False, pd_X = None, pd_Y = Some (Finite 5), pd_Z = None\<rparr>,
      init_processor)"
  by (simp add: parse_params_ignored parse_line_parts example_short_token)

text \<open>C10, at the line \<open>G1 X =7 Y5\<close>, which has one token of each kind.\<close>

theorem short_tokens_ignored_witness:
  "line_parts ''G1 X =7 Y5'' = ''G1'' # [''X'', ''=7'', ''Y5''] \<and>
   line_parts ''G1 Y5'' = ''G1'' # filter (\<lambda>t. \<not> ignored_token t) [''X'', ''=7'', ''Y5''] \<and>
   parse_line ''G1 X =7 Y5'' init_processor = parse_line ''G1 Y5'' init_processor"
proof -
  have a: "line_parts ''G1 X =7 Y5'' = ''G1'' # [''X'', ''=7'', ''Y5'']"
    by code_simp
  have b: "line_parts ''G1 Y5'' = ''G1'' # filter (\<lambda>t. \<not> ignored_token t) [''X'', ''=7'', ''Y5'']"
    by code_simp
  from short_tokens_ignored [of Map.empty "[''X'', ''=7'', ''Y5'']" "''G1 X =7 Y5''" "''G1''" "''G1 Y5''" init_processor]
    a b show ?thesis by blast
qed

subsection \<open>The extrusion watermark\<close>

lemma float_less_trans: "float_less a b \<Longrightarrow> float_less b c \<Longrightarrow> float_less a c"
  by (cases a; cases b; cases c) auto

lemma float_less_irrefl: "\<not> float_less a a"
  by (cases a) auto

lemma last_e_well_formed:
  assumes "well_formed l"
  shows "last_e_value (snd (parse_line l p)) =
     (case present_E l of
        None \<Rightarrow> last_e_value p
      | Some e \<Rightarrow>
          if is_G92 l then e
          else if is_move l then (if float_less (last_e_value p) e then e else last_e_value p)
          else last_e_value p)"
  by (simp add: last_e_parse_line well_formed_params(1) [OF assms])

text \<open>
  One line keeps this: the watermark is the reset value or one of the values seen,
  and none of them is greater.
\<close>

lemma track_step:
  assumes wf: "well_formed l"
    and mem: "last_e_value p \<in> set (fst bs # snd bs)"
    and top: "\<forall>e \<in> set (fst bs # snd bs). \<not> float_less (last_e_value p) e"
  shows "last_e_value (snd (parse_line l p)) \<in> set (fst (track bs l) # snd (track bs l)) \<and>
         (\<forall>e \<in> set (fst (track bs l) # snd (track bs l)).
            \<not> float_less (last_e_value (snd (parse_line l p))) e)"
proof (cases "present_E l")
  case None
  with mem top show ?thesis
    by (simp add: last_e_well_formed [OF wf] track_def)
next
  case (Some e)
  show ?thesis
  proof (cases "is_G92 l")
    case True
    then show ?thesis
      by (simp add: last_e_well_formed [OF wf] track_def Some float_less_irrefl)
  next
    case g: False
    show ?thesis
    proof (cases "is_move l")
      case False
      with g mem top show ?thesis
        by (simp add: last_e_well_formed [OF wf] track_def Some)
    next
      case True
      show ?thesis
      proof (cases "float_less (last_e_value p) e")
        case False
        with g True mem top show ?thesis
          by (auto simp: last_e_well_formed [OF wf] track_def Some)
      next
        case less: True
        have "\<not> float_less e e'" if "e' \<in> set (fst bs # snd bs)" for e'
          using top that float_less_trans [OF less] by blast
        with g True less show ?thesis
          by (auto simp: last_e_well_formed [OF wf] track_def Some float_less_irrefl)
      qed
    qed
  qed
qed

lemma run_lines_track:
  assumes "list_all well_formed ls"
    and "last_e_value p \<in> set (fst bs # snd bs)"
    and "\<forall>e \<in> set (fst bs # snd bs). \<not> float_less (last_e_value p) e"
  shows "last_e_value (run_lines ls p) \<in>
           set (fst (foldl track bs ls) # snd (foldl track bs ls)) \<and>
         (\<forall>e \<in> set (fst (foldl track bs ls) # snd (foldl track bs ls)).
            \<not> float_less (last_e_value (run_lines ls p)) e)"
  using assms
proof (induction ls arbitrary: p bs)
  case Nil
  then show ?case by simp
next
  case (Cons l ls)
  from Cons.prems(1) have wf: "well_formed l" and rest: "list_all well_formed ls"
    by simp_all
  from track_step [OF wf Cons.prems(2) Cons.prems(3)]
  have "last_e_value (snd (parse_line l p)) \<in> set (fst (track bs l) # snd (track bs l))"
    and "\<forall>e \<in> set (fst (track bs l) # snd (track bs l)).
            \<not> float_less (last_e_value (snd (parse_line l p))) e"
    by blast+
  from Cons.IH [OF rest this] show ?case by simp
qed

text \<open>
  C3, as claimed, fails at two places. The watermark is said to equal the highest E
  value seen in G0/G1 lines since the last G92 reset: after \<open>G92 E5\<close> and \<open>G1 E3\<close>
  the only such value is 3, and the watermark is 5. And \<open>extruding\<close> is said to be
  true whenever an E parameter greater than the watermark is present: in
  \<open>G1 Xfoo E5\<close>, read at watermark 0, the parameter E5 is present, and the command
  returned does not extrude, because the loop over the parameters ended at \<open>Xfoo\<close>.
\<close>

theorem watermark_counterexample:
  "last_e_value (run_lines [''G92 E5'', ''G1 E3''] init_processor) = Finite 5 \<and>
   e_seen_since_reset (Finite 0) [''G92 E5'', ''G1 E3''] = [Finite 3] \<and>
   present_E ''G1 Xfoo E5'' = Some (Finite 5) \<and>
   float_less (last_e_value init_processor) (Finite 5) \<and>
   parse_line ''G1 Xfoo E5'' init_processor =
     (Some \<lparr>pd_command = ''G1'', pd_extruding = False, pd_X = None, pd_Y = None, pd_Z = None\<rparr>,
      init_processor\<lparr>warnings := 1\<rparr>)"
proof -
  have "last_e_value (run_lines [''G92 E5'', ''G1 E3''] init_processor) = Finite 5"
    by code_simp
  moreover have "e_seen_since_reset (Finite 0) [''G92 E5'', ''G1 E3''] = [Finite 3]"
    by code_simp
  moreover have "present_E ''G1 Xfoo E5'' = Some (Finite 5)"
    by code_simp
  moreover have "float_less (last_e_value init_processor) (Finite 5)"
    by (simp add: init_processor_def)
  moreover have "parse_line ''G1 Xfoo E5'' init_processor =
     (Some \<lparr>pd_command = ''G1'', pd_extruding = False, pd_X = None, pd_Y = None, pd_Z = None\<rparr>,
      init_processor\<lparr>warnings := 1\<rparr>)"
    by code_simp
  ultimately show ?thesis by blast
qed

text \<open>
  C3, amended, for lines none of whose parameters is malformed. For every such G0/G1
  line and every watermark, the command returned has \<open>extruding\<close> true exactly when
  an E parameter is present in the line and is greater than the watermark; then the
  watermark becomes that value, and otherwise it keeps its value. So after any such
  lines the watermark is the largest of the value of the last reset (the starting
  value, if there was none) and the E values of the G0/G1 lines read since: it is one
  of them, and none of them is greater. Nothing is said of a line with a malformed
  parameter.
\<close>

theorem watermark_tracks_highest_e:
  "(is_move l \<and> well_formed l \<longrightarrow>
      (\<exists>parsed. fst (parse_line l p) = Some parsed \<and>
         (pd_extruding parsed \<longleftrightarrow> (\<exists>e. present_E l = Some e \<and> float_less (last_e_value p) e)) \<and>
         (pd_extruding parsed \<longrightarrow> present_E l = Some (last_e_value (snd (parse_line l p)))) \<and>
         (\<not> pd_extruding parsed \<longrightarrow> last_e_value (snd (parse_line l p)) = last_e_value p))) \<and>
   (list_all well_formed ls \<longrightarrow>
      last_e_value (run_lines ls p) \<in>
        set (reset_value (last_e_value p) ls # e_seen_since_reset (last_e_value p) ls) \<and>
      (\<forall>e \<in> set (reset_value (last_e_value p) ls # e_seen_since_reset (last_e_value p) ls).
         \<not> float_less (last_e_value (run_lines ls p)) e))"
proof (intro conjI impI)
  assume a: "is_move l \<and> well_formed l"
  then have e: "line_params l (CHR ''E'') = present_E l"
    by (simp add: well_formed_params(1))
  from a parse_line_move [of l p] show "\<exists>parsed. fst (parse_line l p) = Some parsed \<and>
         (pd_extruding parsed \<longleftrightarrow> (\<exists>e. present_E l = Some e \<and> float_less (last_e_value p) e)) \<and>
         (pd_extruding parsed \<longrightarrow> present_E l = Some (last_e_value (snd (parse_line l p)))) \<and>
         (\<not> pd_extruding parsed \<longrightarrow> last_e_value (snd (parse_line l p)) = last_e_value p)"
    by (simp add: e)
next
  assume wf: "list_all well_formed ls"
  have "last_e_value p \<in> set (fst (last_e_value p, []) # snd (last_e_value p, []))"
    by simp
  moreover have "\<forall>e \<in> set (fst (last_e_value p, []) # snd (last_e_value p, [])).
      \<not> float_less (last_e_value p) e"
    by (simp add: float_less_irrefl)
  ultimately have r: "last_e_value (run_lines ls p) \<in>
           set (fst (foldl track (last_e_value p, []) ls) # snd (foldl track (last_e_value p, []) ls)) \<and>
         (\<forall>e \<in> set (fst (foldl track (last_e_value p, []) ls) # snd (foldl track (last_e_value p, []) ls)).
            \<not> float_less (last_e_value (run_lines ls p)) e)"
    by (rule run_lines_track [OF wf])
  from r show "last_e_value (run_lines ls p) \<in>
        set (reset_value (last_e_value p) ls # e_seen_since_reset (last_e_value p) ls)"
    by (simp add: reset_value_def e_seen_since_reset_def)
  from r show "\<forall>e \<in> set (reset_value (last_e_value p) ls # e_seen_since_reset (last_e_value p) ls).
         \<not> float_less (last_e_value (run_lines ls p)) e"
    by (simp add: reset_value_def e_seen_since_reset_def)
qed

text \<open>C3, amended, at the line \<open>G1 X10 Y5 E2.5\<close> and at a file of three lines.\<close>

theorem watermark_tracks_highest_e_witness:
  "is_move ''G1 X10 Y5 E2.5'' \<and> well_formed ''G1 X10 Y5 E2.5'' \<and>
   (\<exists>parsed. fst (parse_line ''G1 X10 Y5 E2.5'' init_processor) = Some parsed \<and> pd_extruding parsed) \<and>
   last_e_value (snd (parse_line ''G1 X10 Y5 E2.5'' init_processor)) = Finite 2.5 \<and>
   list_all well_formed [''G92 E5'', ''G1 E3'', ''G1 E4''] \<and>
   last_e_value (run_lines [''G92 E5'', ''G1 E3'', ''G1 E4''] init_processor) \<in>
     set [Finite 5, Finite 3, Finite 4] \<and>
   \<not> float_less (last_e_value (run_lines [''G92 E5'', ''G1 E3'', ''G1 E4''] init_processor)) (Finite 4)"
proof -
  let ?l = "''G1 X10 Y5 E2.5''"
  let ?ls = "[''G92 E5'', ''G1 E3'', ''G1 E4'']"
  have a: "is_move ?l \<and> well_formed ?l" by code_simp
  have b: "present_E ?l = Some (Finite 2.5)" by code_simp
  have c: "last_e_value init_processor = Finite 0" by (simp add: init_processor_def)
  have d: "reset_value (Finite 0) ?ls = Finite 5" by code_simp
  have e: "e_seen_since_reset (Finite 0) ?ls = [Finite 3, Finite 4]" by code_simp
  have w: "list_all well_formed ?ls" by code_simp
  have f: "\<exists>e. present_E ?l = Some e \<and> float_less (last_e_value init_processor) e"
    using b c by (intro exI [of _ "Finite 2.5"]) simp
  note inst = watermark_tracks_highest_e [of ?l init_processor ?ls]
  from inst a obtain parsed where
    p1: "fst (parse_line ?l init_processor) = Some parsed" and
    p2: "pd_extruding parsed \<longleftrightarrow>
           (\<exists>e. present_E ?l = Some e \<and> float_less (last_e_value init_processor) e)" and
    p3: "pd_extruding parsed \<longrightarrow>
           present_E ?l = Some (last_e_value (snd (parse_line ?l init_processor)))"
    by blast
  from p2 f have g: "pd_extruding parsed" by blast
  with p3 b have h: "last_e_value (snd (parse_line ?l init_processor)) = Finite 2.5"
    by simp
  from inst w have m: "last_e_value (run_lines ?ls init_processor) \<in>
        set (reset_value (last_e_value init_processor) ?ls #
             e_seen_since_reset (last_e_value init_processor) ?ls)"
    and t: "\<forall>e \<in> set (reset_value (last_e_value init_processor) ?ls #
             e_seen_since_reset (last_e_value init_processor) ?ls).
         \<not> float_less (last_e_value (run_lines ?ls init_processor)) e"
    by blast+
  from m have i: "last_e_value (run_lines ?ls init_processor) \<in> set [Finite 5, Finite 3, Finite 4]"
    by (simp only: c d e)
  from t have "\<forall>e \<in> set [Finite 5, Finite 3, Finite 4].
         \<not> float_less (last_e_value (run_lines ?ls init_processor)) e"
    by (simp only: c d e)
  then have j: "\<not> float_less (last_e_value (run_lines ?ls init_processor)) (Finite 4)"
    by simp
  from a p1 g h w i j show ?thesis by blast
qed


text \<open>
  C4. The claim: when an E parameter is present in a G92 line, the watermark becomes
  its value. In \<open>G92 Xfoo E3\<close>, read at watermark 7, the parameter E3 is present; the
  loop over the parameters ends at \<open>Xfoo\<close>, one warning is printed, and the watermark
  is still 7.
\<close>

theorem G92_after_malformed_parameter:
  "is_G92 ''G92 Xfoo E3'' \<and>
   present_E ''G92 Xfoo E3'' = Some (Finite 3) \<and>
   parse_line ''G92 Xfoo E3'' (init_processor\<lparr>last_e_value := Finite 7\<rparr>) =
     (None, init_processor\<lparr>last_e_value := Finite 7, warnings := 1\<rparr>)"
proof -
  have "is_G92 ''G92 Xfoo E3''" by code_simp
  moreover have "present_E ''G92 Xfoo E3'' = Some (Finite 3)" by code_simp
  moreover have "parse_line ''G92 Xfoo E3'' (init_processor\<lparr>last_e_value := Finite 7\<rparr>) =
     (None, init_processor\<lparr>last_e_value := Finite 7, warnings := 1\<rparr>)"
    by code_simp
  ultimately show ?thesis by blast
qed


section \<open>Properties of the printer\<close>

subsection \<open>The extruder\<close>

lemma extrude_same: "extruding p = want \<Longrightarrow> extrude want p = p"
  by (auto simp: extrude_def)

lemma extruding_extrude: "extruding (extrude want p) = want"
  by (simp add: extrude_def start_extruding_def stop_extruding_def issue_def)

lemma actions_extrude:
  "actions (extrude want p) =
     actions p @ (if want = extruding p then [] else if want then engage else disengage)"
  by (simp add: extrude_def start_extruding_def stop_extruding_def issue_def engage_def
      disengage_def)

lemma readings_extrude: "readings (extrude want p) = readings p"
  by (simp add: extrude_def start_extruding_def stop_extruding_def issue_def)

lemma actions_extrude_calls:
  "actions (extrude_calls wants p) =
     actions p @ concat (map (\<lambda>w. if w then engage else disengage) (transitions (extruding p) wants))"
proof (induction wants arbitrary: p)
  case Nil
  show ?case by simp
next
  case (Cons want wants)
  show ?case
    by (simp add: Cons actions_extrude extruding_extrude)
qed

lemma transitions_replicate:
  "transitions state (replicate n want) = (if 0 < n \<and> want \<noteq> state then [want] else [])"
proof (induction n arbitrary: state)
  case 0
  show ?case by simp
next
  case (Suc n)
  show ?case
  proof (cases "want = state")
    case True
    with Suc [of state] show ?thesis by simp
  next
    case False
    with Suc [of want] show ?thesis by simp
  qed
qed

text \<open>
  C6. \<open>extrude want\<close> changes nothing when \<open>want\<close> is the state the extruder is in.
  A list of calls sets off one sequence of the extruder motor for each call that
  differs from the state before it and none for the others; so any number of equal
  calls in a row sets off at most one, and two calls with \<open>True\<close> on an extruder that
  is off set off the sequence that engages it exactly once.
\<close>

theorem extrude_idempotent:
  "(extruding p = want \<longrightarrow> extrude want p = p) \<and>
   actions (extrude_calls wants p) =
     actions p @ concat (map (\<lambda>w. if w then engage else disengage) (transitions (extruding p) wants)) \<and>
   actions (extrude_calls (replicate n want) p) =
     actions p @ (if 0 < n \<and> want \<noteq> extruding p then (if want then engage else disengage) else []) \<and>
   (\<not> extruding p \<longrightarrow> actions (extrude_calls [True, True] p) = actions p @ engage)"
proof (intro conjI impI)
  show "extrude want p = p" if "extruding p = want"
    using that by (rule extrude_same)
  show "actions (extrude_calls wants p) =
     actions p @ concat (map (\<lambda>w. if w then engage else disengage) (transitions (extruding p) wants))"
    by (rule actions_extrude_calls)
  show "actions (extrude_calls (replicate n want) p) =
     actions p @ (if 0 < n \<and> want \<noteq> extruding p then (if want then engage else disengage) else [])"
    by (simp add: actions_extrude_calls transitions_replicate)
  show "actions (extrude_calls [True, True] p) = actions p @ engage" if "\<not> extruding p"
    using that by (simp add: actions_extrude_calls del: extrude_calls.simps)
qed

text \<open>C6, at a printer as \<open>__init__\<close> leaves it, with the extruder off.\<close>

theorem extrude_idempotent_witness:
  "extruding (init_printer []) = False \<and> extrude False (init_printer []) = init_printer [] \<and>
   \<not> extruding (init_printer []) \<and>
   actions (extrude_calls [True, True] (init_printer [])) =
     [RunUntilStalled e_motor 500 HOLD 40, Wait 450]"
proof -
  have a: "extruding (init_printer []) = False" by (simp add: init_printer_def)
  have b: "actions (init_printer []) = []" by (simp add: init_printer_def)
  from extrude_idempotent [of "init_printer []" False "[]" 0] a b
  show ?thesis by (simp add: engage_def e_speed_def)
qed

subsection \<open>The velocity components\<close>






subsection \<open>Homing\<close>

lemma actions_offset: "actions (offset m off speed p) = actions p @ offset_step m off speed"
  by (simp add: offset_def offset_step_def issue_def)

lemma actions_offset_sequence:
  "actions (offset_sequence zu xo yo zd p) =
     actions p @ offset_step z_motor zu z_speed @ offset_step x_motor xo xy_speed @
     offset_step y_motor yo xy_speed @ offset_step z_motor zd z_speed"
  by (simp add: offset_sequence_def actions_offset)

lemma seek_actions:
  assumes "seek m s fast bs ba slow p = Inr p'"
  shows "\<exists>ws. actions p' = actions p @ ws @ [Hold m]"
proof -
  from assms obtain ws1 rs1 ws2 rs2 where
    "p' = issue ([Run m fast] @ ws1 @ [Brake m, RunAngle m bs ba BRAKE True, Run m slow] @ ws2 @ [Hold m])
            (p\<lparr>readings := rs2\<rparr>)"
    by (auto simp: seek_def split: option.splits)
  then have "actions p' =
      actions p @ ([Run m fast] @ ws1 @ [Brake m, RunAngle m bs ba BRAKE True, Run m slow] @ ws2) @ [Hold m]"
    by (simp add: issue_def)
  then show ?thesis by blast
qed

lemma home_actions:
  assumes "home p = Inr p'"
  shows "\<exists>seeks. actions p' =
           actions p @ seeks @ [Hold z_motor] @ offset_step z_motor 18 z_speed @
           offset_step x_motor 290 xy_speed @ offset_step y_motor 0 xy_speed @
           offset_step z_motor (- 11.25) z_speed"
proof -
  from assms obtain p1 p2 p3 where
    h1: "home_xy x_motor x_sensor p = Inr p1" and
    h2: "home_xy y_motor y_sensor p1 = Inr p2" and
    h3: "home_z z_motor z_sensor p2 = Inr p3" and
    p': "p' = offset_sequence 18 290 0 (- 11.25) p3"
    by (auto simp: home_def split: sum.splits)
  from h1 obtain w1 where a1: "actions p1 = actions p @ w1 @ [Hold x_motor]"
    unfolding home_xy_def by (blast dest: seek_actions)
  from h2 obtain w2 where a2: "actions p2 = actions p1 @ w2 @ [Hold y_motor]"
    unfolding home_xy_def by (blast dest: seek_actions)
  from h3 obtain w3 where a3: "actions p3 = actions p2 @ w3 @ [Hold z_motor]"
    unfolding home_z_def by (blast dest: seek_actions)
  have "actions p3 = actions p @ (w1 @ [Hold x_motor] @ w2 @ [Hold y_motor] @ w3) @ [Hold z_motor]"
    by (simp add: a1 a2 a3)
  then show ?thesis
    unfolding p' actions_offset_sequence by (metis append.assoc)
qed

lemma wait_pressed_now: "pressed s r \<Longrightarrow> wait_pressed s (r # rs) = Some ([], rs)"
  by simp

lemma pressed_all: "all_pressed r \<Longrightarrow> pressed s r"
  by (cases s) (simp_all add: all_pressed_def)

lemma home_completes:
  assumes "list_all all_pressed (readings p)" and "6 \<le> length (readings p)"
  shows "\<exists>p'. home p = Inr p'"
proof -
  from assms(2) obtain a b c d e f rest where rs: "readings p = a # b # c # d # e # f # rest"
    by (auto simp: eval_nat_numeral Suc_le_length_iff)
  with assms(1) have "pressed s a" "pressed s b" "pressed s c" "pressed s d" "pressed s e" "pressed s f" for s
    by (simp_all add: pressed_all)
  then show ?thesis
    by (simp add: home_def home_xy_def home_z_def seek_def rs issue_def del: wait_pressed.simps
        add: wait_pressed_now)
qed

text \<open>
  C8. The offsets run in the order Z up, X, Y, Z down. A step with a nonzero offset
  moves the motor by the offset, waiting for the motion, pauses 500 ms and then resets
  the angle of that motor to zero; a step with offset zero only resets the angle. With
  the values of the source, whenever \<open>home\<close> returns, its actions end with the hold
  of Z that ends the seeks and then the four steps in that order, Y without motion.
  \<open>home\<close> returns when each of its six polls of a sensor finds it pressed.
\<close>

theorem homing_offset_sequence:
  "actions (offset_sequence zu xo yo zd p) =
     actions p @ offset_step z_motor zu z_speed @ offset_step x_motor xo xy_speed @
     offset_step y_motor yo xy_speed @ offset_step z_motor zd z_speed \<and>
   (off \<noteq> 0 \<longrightarrow>
      actions (offset m off speed p) =
        actions p @ [RunAngle m speed off HOLD True, Wait 500, ResetAngle m 0, StopMotor m]) \<and>
   actions (offset m 0 speed p) = actions p @ [ResetAngle m 0, StopMotor m] \<and>
   (home p = Inr p' \<longrightarrow>
      (\<exists>seeks. actions p' =
         actions p @ seeks @
         [Hold z_motor,
          RunAngle z_motor 1000 18 HOLD True, Wait 500, ResetAngle z_motor 0, StopMotor z_motor,
          RunAngle x_motor 90 290 HOLD True, Wait 500, ResetAngle x_motor 0, StopMotor x_motor,
          ResetAngle y_motor 0, StopMotor y_motor,
          RunAngle z_motor 1000 (- 11.25) HOLD True, Wait 500, ResetAngle z_motor 0, StopMotor z_motor])) \<and>
   (list_all all_pressed (readings p) \<and> 6 \<le> length (readings p) \<longrightarrow> (\<exists>p''. home p = Inr p''))"
proof (intro conjI impI)
  show "actions (offset_sequence zu xo yo zd p) =
     actions p @ offset_step z_motor zu z_speed @ offset_step x_motor xo xy_speed @
     offset_step y_motor yo xy_speed @ offset_step z_motor zd z_speed"
    by (rule actions_offset_sequence)
  show "actions (offset m off speed p) =
        actions p @ [RunAngle m speed off HOLD True, Wait 500, ResetAngle m 0, StopMotor m]"
    if "off \<noteq> 0"
    using that by (simp add: actions_offset offset_step_def)
  show "actions (offset m 0 speed p) = actions p @ [ResetAngle m 0, StopMotor m]"
    by (simp add: actions_offset offset_step_def)
  show "\<exists>seeks. actions p' =
         actions p @ seeks @
         [Hold z_motor,
          RunAngle z_motor 1000 18 HOLD True, Wait 500, ResetAngle z_motor 0, StopMotor z_motor,
          RunAngle x_motor 90 290 HOLD True, Wait 500, ResetAngle x_motor 0, StopMotor x_motor,
          ResetAngle y_motor 0, StopMotor y_motor,
          RunAngle z_motor 1000 (- 11.25) HOLD True, Wait 500, ResetAngle z_motor 0, StopMotor z_motor]"
    if "home p = Inr p'"
    using home_actions [OF that] by (simp add: offset_step_def z_speed_def xy_speed_def)
  show "\<exists>p''. home p = Inr p''"
    if "list_all all_pressed (readings p) \<and> 6 \<le> length (readings p)"
    using that home_completes by blast
qed

text \<open>The whole of \<open>home\<close> on a machine whose sensors are pressed from the start.\<close>

lemma home_idle:
  "home (init_printer [idle, idle, idle, idle, idle, idle]) =
     Inr \<lparr>extruding = False,
          actions =
            [Run x_motor (- 225), Brake x_motor, RunAngle x_motor 90 45 BRAKE True,
             Run x_motor (- 45), Hold x_motor,
             Run y_motor (- 225), Brake y_motor, RunAngle y_motor 90 45 BRAKE True,
             Run y_motor (- 45), Hold y_motor,
             Run z_motor (- 1000), Brake z_motor, RunAngle z_motor 1000 8 BRAKE True,
             Run z_motor (- 250), Hold z_motor,
             RunAngle z_motor 1000 18 HOLD True, Wait 500, ResetAngle z_motor 0, StopMotor z_motor,
             RunAngle x_motor 90 290 HOLD True, Wait 500, ResetAngle x_motor 0, StopMotor x_motor,
             ResetAngle y_motor 0, StopMotor y_motor,
             RunAngle z_motor 1000 (- 11.25) HOLD True, Wait 500, ResetAngle z_motor 0,
             StopMotor z_motor],
          readings = []\<rparr>"
  by (simp add: home_def home_xy_def home_z_def seek_def init_printer_def idle_def issue_def
      offset_sequence_def offset_def xy_speed_def z_speed_def)

text \<open>C8, at the offset 18 of Z and at a machine whose sensors are pressed from the start.\<close>

theorem homing_offset_sequence_witness:
  "(18::real) \<noteq> 0 \<and>
   actions (offset z_motor 18 1000 (init_printer [])) =
     [RunAngle z_motor 1000 18 HOLD True, Wait 500, ResetAngle z_motor 0, StopMotor z_motor] \<and>
   list_all all_pressed (readings (init_printer [idle, idle, idle, idle, idle, idle])) \<and>
   6 \<le> length (readings (init_printer [idle, idle, idle, idle, idle, idle])) \<and>
   (\<exists>p' seeks.
      home (init_printer [idle, idle, idle, idle, idle, idle]) = Inr p' \<and>
      actions p' =
         seeks @
         [Hold z_motor,
          RunAngle z_motor 1000 18 HOLD True, Wait 500, ResetAngle z_motor 0, StopMotor z_motor,
          RunAngle x_motor 90 290 HOLD True, Wait 500, ResetAngle x_motor 0, StopMotor x_motor,
          ResetAngle y_motor 0, StopMotor y_motor,
          RunAngle z_motor 1000 (- 11.25) HOLD True, Wait 500, ResetAngle z_motor 0, StopMotor z_motor])"
proof -
  let ?p = "init_printer [idle, idle, idle, idle, idle, idle]"
  have a: "(18::real) \<noteq> 0" by simp
  have b: "actions (init_printer []) = []" by (simp add: init_printer_def)
  have c: "list_all all_pressed (readings ?p)"
    by (simp add: init_printer_def idle_def all_pressed_def)
  have d: "6 \<le> length (readings ?p)"
    by (simp add: init_printer_def)
  have e: "actions ?p = []" by (simp add: init_printer_def)
  from homing_offset_sequence [where off = 18 and m = z_motor and speed = 1000
      and p = "init_printer []" and zu = 18 and xo = 290 and yo = 0 and zd = 0
      and p' = "init_printer []"] a b
  have f: "actions (offset z_motor 18 1000 (init_printer [])) =
     [RunAngle z_motor 1000 18 HOLD True, Wait 500, ResetAngle z_motor 0, StopMotor z_motor]"
    by simp
  from homing_offset_sequence [where p = ?p and zu = 18 and xo = 290 and yo = 0 and zd = 0
      and off = 18 and m = z_motor and speed = 1000 and p' = ?p] c d
  obtain p' where g: "home ?p = Inr p'" by blast
  from homing_offset_sequence [where p = ?p and zu = 18 and xo = 290 and yo = 0 and zd = 0
      and off = 18 and m = z_motor and speed = 1000 and p' = p'] g e
  obtain seeks where h: "actions p' =
         seeks @
         [Hold z_motor,
          RunAngle z_motor 1000 18 HOLD True, Wait 500, ResetAngle z_motor 0, StopMotor z_motor,
          RunAngle x_motor 90 290 HOLD True, Wait 500, ResetAngle x_motor 0, StopMotor x_motor,
          ResetAngle y_motor 0, StopMotor y_motor,
          RunAngle z_motor 1000 (- 11.25) HOLD True, Wait 500, ResetAngle z_motor 0, StopMotor z_motor]"
    by auto
  from a f c d g h show ?thesis by blast
qed


subsection \<open>Z before or after X and Y\<close>

lemma sqrt_100: "sqrt 100 = 10"
  by (rule real_sqrt_unique) simp_all

lemma velocity_10: "calculate_velocity_components 0 0 10 0 90 = (90, 0)"
  by (simp add: calculate_velocity_components_def Let_def sqrt_100)

lemma velocity_0: "calculate_velocity_components 0 0 0 0 90 = (0, 0)"
  by (simp add: calculate_velocity_components_def Let_def)

lemma degrees_examples:
  "to_degrees (Finite 0) (4 / 45) = Inr 0" "to_degrees (Finite 0) (8 / 45) = Inr 0"
  "to_degrees (Finite 10) (4 / 45) = Inr 112" "to_degrees (Finite 20) (4 / 45) = Inr 225"
  "to_degrees (Finite 5) (8 / 45) = Inr 28" "to_degrees (Finite 10) (8 / 45) = Inr 56"
  by (simp_all add: to_degrees_def round_float_def float_overflow_def float_underflow_def py_int_def)

text \<open>The definitions that a run on given lines and readings unfolds.\<close>

lemmas run_defs =
  init_job_def init_printer_def execute_def move_def degrees_examples velocity_10 velocity_0
  float_overflow_def float_underflow_def xy_speed_def x_mm_per_degree_def y_mm_per_degree_def
  z_mm_per_degree_def
  idle_def issue_def z_speed_def e_speed_def Let_def extrude_def start_extruding_def
  stop_extruding_def

lemma parse_Z10:
  "parse_line ''G1 Z10'' init_processor =
     (Some \<lparr>pd_command = ''G1'', pd_extruding = False, pd_X = None, pd_Y = None,
            pd_Z = Some (Finite 10)\<rparr>,
      init_processor)"
  by code_simp

lemma parse_X10_Z5:
  "parse_line ''G1 X10 Z5'' init_processor =
     (Some \<lparr>pd_command = ''G1'', pd_extruding = False, pd_X = Some (Finite 10), pd_Y = None,
            pd_Z = Some (Finite 5)\<rparr>,
      init_processor)"
  by code_simp

lemma loop_raise_then_lower:
  "print_loop [''G1 Z10'', ''G1 X10 Z5''] (init_job [idle, idle, idle, idle]) =
     Inr \<lparr>the_processor = init_processor,
          the_printer =
            \<lparr>extruding = False,
             actions = [RunTarget z_motor 1000 56 BRAKE True, PollXYDone True,
                        RunTarget z_motor 1000 28 BRAKE True, PollXYDone True,
                        RunTarget x_motor 90 112 HOLD False],
             readings = []\<rparr>,
          current_x = Finite 10, current_y = Finite 0, current_z = Finite 5\<rparr>"
  by (simp add: run_defs parse_Z10 parse_X10_Z5)

text \<open>
  C1. The claim: a Z command comes before the X and Y commands when the target Z is
  above the previous Z, after them when it is below, and not at all when Z is
  unchanged. \<open>move\<close> compares the target in degrees, \<open>int(z / z_mm_per_degree)\<close>,
  with the previous Z in millimetres. Moving from (0, 0, 10) to (10, 0, 5) lowers Z,
  and the Z command (28 degrees against 10 mm) is sent and awaited before the X
  command. Moving from (0, 0, 10) to (10, 0, 10) leaves Z unchanged, and a Z command
  (56 degrees) is sent. The file \<open>G1 Z10\<close>, \<open>G1 X10 Z5\<close> makes the first of these
  calls.
\<close>

theorem move_Z_order_by_degrees:
  "move (Finite 10) (Finite 0) (Finite 5) (Finite 0) (Finite 0) (Finite 10) ''G1''
     (init_printer [idle]) =
     Inr \<lparr>extruding = False,
          actions = [RunTarget z_motor 1000 28 BRAKE True, PollXYDone True,
                     RunTarget x_motor 90 112 HOLD False],
          readings = []\<rparr> \<and>
   move (Finite 10) (Finite 0) (Finite 10) (Finite 0) (Finite 0) (Finite 10) ''G1''
     (init_printer [idle]) =
     Inr \<lparr>extruding = False,
          actions = [RunTarget z_motor 1000 56 BRAKE True, PollXYDone True,
                     RunTarget x_motor 90 112 HOLD False],
          readings = []\<rparr> \<and>
   print_loop [''G1 Z10'', ''G1 X10 Z5''] (init_job [idle, idle, idle, idle]) =
     Inr \<lparr>the_processor = init_processor,
          the_printer =
            \<lparr>extruding = False,
             actions = [RunTarget z_motor 1000 56 BRAKE True, PollXYDone True,
                        RunTarget z_motor 1000 28 BRAKE True, PollXYDone True,
                        RunTarget x_motor 90 112 HOLD False],
             readings = []\<rparr>,
          current_x = Finite 10, current_y = Finite 0, current_z = Finite 5\<rparr>"
proof -
  have "move (Finite 10) (Finite 0) (Finite 5) (Finite 0) (Finite 0) (Finite 10) ''G1''
     (init_printer [idle]) =
     Inr \<lparr>extruding = False,
          actions = [RunTarget z_motor 1000 28 BRAKE True, PollXYDone True,
                     RunTarget x_motor 90 112 HOLD False],
          readings = []\<rparr>"
    by (simp add: run_defs)
  moreover have "move (Finite 10) (Finite 0) (Finite 10) (Finite 0) (Finite 0) (Finite 10) ''G1''
     (init_printer [idle]) =
     Inr \<lparr>extruding = False,
          actions = [RunTarget z_motor 1000 56 BRAKE True, PollXYDone True,
                     RunTarget x_motor 90 112 HOLD False],
          readings = []\<rparr>"
    by (simp add: run_defs)
  ultimately show ?thesis
    using loop_raise_then_lower by simp
qed

section \<open>Properties of the print loop\<close>

subsection \<open>One line\<close>

lemma wait_xy_actions:
  "wait_xy rs = Some (ws, r, rs') \<Longrightarrow> list_all move_action ws"
proof (induction rs arbitrary: ws r rs')
  case Nil
  then show ?case by simp
next
  case (Cons a rs)
  show ?case
  proof (cases "\<not> (x_done a \<and> y_done a) \<and> CENTER \<notin> set (buttons a)")
    case True
    with Cons.prems obtain ws0 where w: "wait_xy rs = Some (ws0, r, rs')"
      and ws: "ws = PollXYDone False # Wait 5 # ws0"
      by (auto split: option.splits)
    from Cons.IH [OF w] ws show ?thesis by simp
  next
    case False
    with Cons.prems have "ws = [PollXYDone (x_done a \<and> y_done a)]"
      by (auto split: if_splits)
    then show ?thesis by simp
  qed
qed

lemma move_extends_refl: "move_extends p p"
  by (simp add: move_extends_def)

lemma move_extends_issue:
  "list_all move_action as \<Longrightarrow> move_extends p q \<Longrightarrow> move_extends p (issue as q)"
  by (auto simp: move_extends_def issue_def)

lemma move_extends_readings:
  "move_extends p q \<Longrightarrow> move_extends p (q\<lparr>readings := rs\<rparr>)"
  by (simp add: move_extends_def)

lemma move_extends_if:
  "move_extends p a \<Longrightarrow> move_extends p b \<Longrightarrow> move_extends p (if C then a else b)"
  by simp

lemma move_extends_speeds:
  "move_extends p a \<Longrightarrow> (\<And>xs ys. move_extends p (f xs ys)) \<Longrightarrow>
     move_extends p (case s of None \<Rightarrow> a | Some (xs, ys) \<Rightarrow> f xs ys)"
  by (auto split: option.splits)

lemma move_appends:
  assumes "move x y z px py pz c p = Inr p'"
  shows "\<exists>mv. actions p' = actions p @ mv \<and> list_all move_action mv \<and>
               extruding p' = extruding p"
proof -
  from assms have "move_extends p p'"
    by (auto simp: move_def Let_def split: sum.splits if_splits option.splits
        intro!: move_extends_if move_extends_speeds move_extends_issue move_extends_readings
          move_extends_refl
        dest: wait_xy_actions)
  then show ?thesis by (simp add: move_extends_def)
qed


lemma execute_travel_example:
  "execute \<lparr>pd_command = ''G1'', pd_extruding = False, pd_X = Some (Finite 10), pd_Y = None,
             pd_Z = None\<rparr>
     \<lparr>the_processor = init_processor,
      the_printer = \<lparr>extruding = True, actions = [], readings = [idle]\<rparr>,
      current_x = Finite 0, current_y = Finite 0, current_z = Finite 0\<rparr> =
   Inr \<lparr>the_processor = init_processor,
        the_printer = \<lparr>extruding = False,
                       actions = [PollXYDone True, RunTarget x_motor 90 112 HOLD False,
                                  RunUntilStalled e_motor (- 500) BRAKE 40],
                       readings = []\<rparr>,
        current_x = Finite 10, current_y = Finite 0, current_z = Finite 0\<rparr>"
  by (simp add: run_defs)

lemma velocity_10_20: "calculate_velocity_components 10 0 20 0 90 = (90, 0)"
  by (simp add: calculate_velocity_components_def Let_def sqrt_100)

lemma parse_X10_E1:
  "parse_line ''G1 X10 E1'' init_processor =
     (Some \<lparr>pd_command = ''G1'', pd_extruding = True, pd_X = Some (Finite 10), pd_Y = None,
            pd_Z = None\<rparr>,
      init_processor\<lparr>last_e_value := Finite 1\<rparr>)"
  by code_simp

lemma parse_X20:
  "parse_line ''G1 X20'' (init_processor\<lparr>last_e_value := Finite 1\<rparr>) =
     (Some \<lparr>pd_command = ''G1'', pd_extruding = False, pd_X = Some (Finite 20), pd_Y = None,
            pd_Z = None\<rparr>,
      init_processor\<lparr>last_e_value := Finite 1\<rparr>)"
  by code_simp

lemma loop_extrude_then_travel:
  "print_loop [''G1 X10 E1'', ''G1 X20''] (init_job [idle, idle, idle, idle\<lparr>x_angle := 112\<rparr>]) =
     Inr \<lparr>the_processor = init_processor\<lparr>last_e_value := Finite 1\<rparr>,
          the_printer =
            \<lparr>extruding = False,
             actions = [RunUntilStalled e_motor 500 HOLD 40, Wait 450, PollXYDone True,
                        RunTarget x_motor 90 112 HOLD False, PollXYDone True,
                        RunTarget x_motor 90 225 HOLD False,
                        RunUntilStalled e_motor (- 500) BRAKE 40],
             readings = []\<rparr>,
          current_x = Finite 20, current_y = Finite 0, current_z = Finite 0\<rparr>"
  by (simp add: run_defs velocity_10_20 parse_X10_E1 parse_X20)

text \<open>
  C5, as claimed: the extruder is stopped only after the move is complete. The file
  \<open>G1 X10 E1\<close>, \<open>G1 X20\<close>: the second line does not extrude, its X command returns
  at once (\<open>wait=False\<close>), and the command that stops the extruder follows it with no
  poll of the motors in between.
\<close>

theorem extruder_stops_before_move_completes:
  "print_loop [''G1 X10 E1'', ''G1 X20''] (init_job [idle, idle, idle, idle\<lparr>x_angle := 112\<rparr>]) =
     Inr \<lparr>the_processor = init_processor\<lparr>last_e_value := Finite 1\<rparr>,
          the_printer =
            \<lparr>extruding = False,
             actions = [RunUntilStalled e_motor 500 HOLD 40, Wait 450, PollXYDone True,
                        RunTarget x_motor 90 112 HOLD False, PollXYDone True,
                        RunTarget x_motor 90 225 HOLD False,
                        RunUntilStalled e_motor (- 500) BRAKE 40],
             readings = []\<rparr>,
          current_x = Finite 20, current_y = Finite 0, current_z = Finite 0\<rparr> \<and>
   \<not> stops_after_completion False
       [RunUntilStalled e_motor 500 HOLD 40, Wait 450, PollXYDone True,
        RunTarget x_motor 90 112 HOLD False, PollXYDone True,
        RunTarget x_motor 90 225 HOLD False,
        RunUntilStalled e_motor (- 500) BRAKE 40]"
  using loop_extrude_then_travel by simp

text \<open>
  C5, amended. Whenever the loop body executes an accepted command, its actions are,
  in this order: the sequence that engages the extruder, if the command extrudes and
  the extruder was off; the actions of \<open>move\<close>, which are the wait for the earlier X
  and Y motions, commands to X and Y that return without waiting for the motion, and
  commands to Z that are awaited; the sequence that disengages the extruder, if the
  command does not extrude and the extruder was on.
\<close>

theorem execute_order:
  "execute parsed j = Inr j' \<longrightarrow>
     (\<exists>mv. list_all move_action mv \<and>
        actions (the_printer j') =
          actions (the_printer j) @
          (if pd_extruding parsed \<and> \<not> extruding (the_printer j) then engage else []) @
          mv @
          (if \<not> pd_extruding parsed \<and> extruding (the_printer j) then disengage else []) \<and>
        extruding (the_printer j') = pd_extruding parsed)"
proof
  assume ex: "execute parsed j = Inr j'"
  define tx where "tx = (case pd_X parsed of Some v \<Rightarrow> v | None \<Rightarrow> current_x j)"
  define ty where "ty = (case pd_Y parsed of Some v \<Rightarrow> v | None \<Rightarrow> current_y j)"
  define tz where "tz = (case pd_Z parsed of Some v \<Rightarrow> v | None \<Rightarrow> current_z j)"
  define p1 where "p1 = (if pd_extruding parsed then extrude (pd_extruding parsed) (the_printer j)
                         else the_printer j)"
  from ex obtain p2 where
    mv: "move tx ty tz (current_x j) (current_y j) (current_z j) (pd_command parsed) p1 = Inr p2" and
    j': "the_printer j' = (if \<not> pd_extruding parsed then extrude (pd_extruding parsed) p2 else p2)"
    by (auto simp: execute_def Let_def tx_def ty_def tz_def p1_def split: sum.splits)
  from move_appends [OF mv] obtain ms where
    a2: "actions p2 = actions p1 @ ms" and ms: "list_all move_action ms" and
    e2: "extruding p2 = extruding p1"
    by blast
  show "\<exists>mv. list_all move_action mv \<and>
        actions (the_printer j') =
          actions (the_printer j) @
          (if pd_extruding parsed \<and> \<not> extruding (the_printer j) then engage else []) @
          mv @
          (if \<not> pd_extruding parsed \<and> extruding (the_printer j) then disengage else []) \<and>
        extruding (the_printer j') = pd_extruding parsed"
  proof (cases "pd_extruding parsed")
    case True
    with j' a2 e2 ms show ?thesis
      by (intro exI [of _ ms]) (auto simp: p1_def actions_extrude extruding_extrude)
  next
    case False
    with j' a2 e2 ms show ?thesis
      by (intro exI [of _ ms]) (auto simp: p1_def actions_extrude extruding_extrude)
  qed
qed

text \<open>C5, amended, at the line \<open>G1 X10\<close> executed while the extruder is on.\<close>

theorem execute_order_witness:
  "execute \<lparr>pd_command = ''G1'', pd_extruding = False, pd_X = Some (Finite 10), pd_Y = None,
             pd_Z = None\<rparr>
     \<lparr>the_processor = init_processor,
      the_printer = \<lparr>extruding = True, actions = [], readings = [idle]\<rparr>,
      current_x = Finite 0, current_y = Finite 0, current_z = Finite 0\<rparr> =
   Inr \<lparr>the_processor = init_processor,
        the_printer = \<lparr>extruding = False,
                       actions = [PollXYDone True, RunTarget x_motor 90 112 HOLD False,
                                  RunUntilStalled e_motor (- 500) BRAKE 40],
                       readings = []\<rparr>,
        current_x = Finite 10, current_y = Finite 0, current_z = Finite 0\<rparr> \<and>
   (\<exists>mv. list_all move_action mv \<and>
      [PollXYDone True, RunTarget x_motor 90 112 HOLD False,
       RunUntilStalled e_motor (- 500) BRAKE 40] = mv @ disengage)"
proof -
  note ex = execute_travel_example
  from execute_order [of
      "\<lparr>pd_command = ''G1'', pd_extruding = False, pd_X = Some (Finite 10), pd_Y = None,
        pd_Z = None\<rparr>"
      "\<lparr>the_processor = init_processor,
        the_printer = \<lparr>extruding = True, actions = [], readings = [idle]\<rparr>,
        current_x = Finite 0, current_y = Finite 0, current_z = Finite 0\<rparr>"
      "\<lparr>the_processor = init_processor,
        the_printer = \<lparr>extruding = False,
                       actions = [PollXYDone True, RunTarget x_motor 90 112 HOLD False,
                                  RunUntilStalled e_motor (- 500) BRAKE 40],
                       readings = []\<rparr>,
        current_x = Finite 10, current_y = Finite 0, current_z = Finite 0\<rparr>"] ex
  have "\<exists>mv. list_all move_action mv \<and>
      [PollXYDone True, RunTarget x_motor 90 112 HOLD False,
       RunUntilStalled e_motor (- 500) BRAKE 40] = mv @ disengage"
    by simp
  with ex show ?thesis by blast
qed


subsection \<open>The job\<close>

lemma parse_line_Some_command:
  assumes "parse_line l p = (Some parsed, p')"
  shows "pd_command parsed = ''G0'' \<or> pd_command parsed = ''G1''"
proof (cases "line_command l")
  case None
  with assms show ?thesis by (simp add: parse_line_other)
next
  case (Some cmd)
  with assms show ?thesis
    by (auto simp: parse_line_command [OF Some] dispatch_def Let_def split: if_splits option.splits)
qed

lemma parse_line_Some_params:
  assumes "parse_line l p = (Some parsed, p')"
  shows "pd_X parsed = line_params l (CHR ''X'') \<and> pd_Y parsed = line_params l (CHR ''Y'') \<and>
         pd_Z parsed = line_params l (CHR ''Z'')"
proof (cases "line_command l")
  case None
  with assms show ?thesis by (simp add: parse_line_other)
next
  case (Some cmd)
  with assms show ?thesis
    by (auto simp: parse_line_command [OF Some] dispatch_def Let_def split: if_splits option.splits)
qed

lemma parse_params_safe:
  assumes "\<forall>c v. raw c = Some v \<longrightarrow> safe_number v"
    and "list_all (\<lambda>t. case py_float (tl (strip t)) of None \<Rightarrow> True | Some v \<Rightarrow> safe_number v) ts"
  shows "\<forall>c v. fst (parse_params raw ts) c = Some v \<longrightarrow> safe_number v"
  using assms
proof (induction ts arbitrary: raw)
  case Nil
  then show ?case by simp
next
  case (Cons t ts)
  from Cons.prems(2) have
    t: "case py_float (tl (strip t)) of None \<Rightarrow> True | Some v \<Rightarrow> safe_number v" and
    ts: "list_all (\<lambda>t. case py_float (tl (strip t)) of None \<Rightarrow> True | Some v \<Rightarrow> safe_number v) ts"
    by simp_all
  show ?case
  proof (cases "ignored_token t")
    case True
    then have "parse_params raw (t # ts) = parse_params raw ts"
      by (auto simp: ignored_token_def Let_def)
    with Cons.IH [OF Cons.prems(1) ts] show ?thesis by simp
  next
    case False
    show ?thesis
    proof (cases "py_float (tl (strip t))")
      case None
      with False have "parse_params raw (t # ts) = (raw, True)"
        by (simp add: ignored_token_def Let_def)
      with Cons.prems(1) show ?thesis by simp
    next
      case (Some v)
      with t have sv: "safe_number v" by simp
      from False Some have a: "parse_params raw (t # ts) =
          parse_params (raw(upper_char (hd (strip t)) \<mapsto> v)) ts"
        by (simp add: ignored_token_def Let_def del: fun_upd_apply)
      have "\<forall>c w. (raw(upper_char (hd (strip t)) \<mapsto> v)) c = Some w \<longrightarrow> safe_number w"
        using Cons.prems(1) sv by simp
      from Cons.IH [OF this ts] show ?thesis
        unfolding a .
    qed
  qed
qed

lemma safe_line_params:
  assumes "safe_line l" and "line_params l c = Some v"
  shows "safe_number v"
proof -
  have "\<forall>c v. Map.empty c = Some v \<longrightarrow> safe_number v" by simp
  from parse_params_safe [OF this] assms show ?thesis
    by (auto simp: safe_line_def line_params_def)
qed

lemma wait_xy_quiet: "quiet r \<Longrightarrow> wait_xy (r # rs) = Some ([PollXYDone True], r, rs)"
  by (simp add: quiet_def)

lemma readings_issue: "readings (issue as p) = readings p"
  by (simp add: issue_def)

lemma move_quiet:
  assumes c: "c = ''G0'' \<or> c = ''G1''" and rs: "readings p = r # rs" and q: "quiet r"
    and x: "converts x x_mm_per_degree" and y: "converts y y_mm_per_degree"
    and z: "converts z z_mm_per_degree"
  shows "\<exists>p'. move x y z px py pz c p = Inr p' \<and> readings p' = rs"
proof -
  from x y z obtain xd yd zd where
    d: "to_degrees x x_mm_per_degree = Inr xd" "to_degrees y y_mm_per_degree = Inr yd"
       "to_degrees z z_mm_per_degree = Inr zd"
    by (auto simp: converts_def split: sum.splits)
  have w: "wait_xy (r # rs) = Some ([PollXYDone True], r, rs)"
    using q by (rule wait_xy_quiet)
  have i: "readings (if C then issue as p else p) = r # rs" for C as
    by (simp add: readings_issue rs)
  show ?thesis
    using c
    by (elim disjE)
       (auto simp: move_def Let_def d i w readings_issue split: option.splits
          simp del: wait_xy.simps)
qed

lemma execute_quiet:
  assumes cmd: "pd_command parsed = ''G0'' \<or> pd_command parsed = ''G1''"
    and rs: "readings (the_printer j) = r # rs" and q: "quiet r"
    and pos: "safe_position j"
    and sx: "\<forall>v. pd_X parsed = Some v \<longrightarrow> safe_number v"
    and sy: "\<forall>v. pd_Y parsed = Some v \<longrightarrow> safe_number v"
    and sz: "\<forall>v. pd_Z parsed = Some v \<longrightarrow> safe_number v"
  shows "\<exists>j'. execute parsed j = Inr j' \<and> readings (the_printer j') = rs \<and> safe_position j'"
proof -
  define tx where "tx = (case pd_X parsed of Some v \<Rightarrow> v | None \<Rightarrow> current_x j)"
  define ty where "ty = (case pd_Y parsed of Some v \<Rightarrow> v | None \<Rightarrow> current_y j)"
  define tz where "tz = (case pd_Z parsed of Some v \<Rightarrow> v | None \<Rightarrow> current_z j)"
  define p1 where "p1 = (if pd_extruding parsed then extrude (pd_extruding parsed) (the_printer j)
                         else the_printer j)"
  have cx: "converts tx x_mm_per_degree"
    using pos sx by (auto simp: tx_def safe_position_def safe_number_def split: option.splits)
  have cy: "converts ty y_mm_per_degree"
    using pos sy by (auto simp: ty_def safe_position_def safe_number_def split: option.splits)
  have cz: "converts tz z_mm_per_degree"
    using pos sz by (auto simp: tz_def safe_position_def safe_number_def split: option.splits)
  have "readings p1 = r # rs"
    using rs by (simp add: p1_def readings_extrude)
  from move_quiet [OF cmd this q cx cy cz] obtain p2 where
    m: "move tx ty tz (current_x j) (current_y j) (current_z j) (pd_command parsed) p1 = Inr p2"
    and r: "readings p2 = rs"
    by blast
  from m r cx cy cz show ?thesis
    by (simp add: execute_def Let_def p1_def tx_def ty_def tz_def readings_extrude
        safe_position_def)
qed

lemma print_loop_completes:
  assumes "list_all safe_line lines" and "safe_position j"
    and "list_all quiet (readings (the_printer j))"
    and "2 * length lines \<le> length (readings (the_printer j))"
  shows "\<exists>j'. print_loop lines j = Inr j'"
  using assms
proof (induction lines arbitrary: j)
  case Nil
  show ?case by simp
next
  case (Cons line lines)
  from Cons.prems(1) have sl: "safe_line line" and sls: "list_all safe_line lines"
    by simp_all
  from Cons.prems(4) obtain r1 r2 rs where rs: "readings (the_printer j) = r1 # r2 # rs"
    by (cases "readings (the_printer j)"; cases "tl (readings (the_printer j))") auto
  with Cons.prems have q1: "quiet r1" and q2: "quiet r2" and qs: "list_all quiet rs"
    and len: "2 * length lines \<le> length rs"
    by auto
  from q1 have nb: "buttons r1 \<noteq> [CENTER]" by (simp add: quiet_def)
  obtain parsed_output proc where pl: "parse_line line (the_processor j) = (parsed_output, proc)"
    by (cases "parse_line line (the_processor j)") auto
  define j1 where "j1 = j\<lparr>the_processor := proc, the_printer := the_printer j\<lparr>readings := r2 # rs\<rparr>\<rparr>"
  have r1: "readings (the_printer j1) = r2 # rs" by (simp add: j1_def)
  have s1: "safe_position j1" using Cons.prems(2) by (simp add: j1_def safe_position_def)
  show ?case
  proof (cases parsed_output)
    case None
    have "list_all quiet (readings (the_printer j1))" using q2 qs r1 by simp
    moreover have "2 * length lines \<le> length (readings (the_printer j1))" using len r1 by simp
    ultimately obtain j' where "print_loop lines j1 = Inr j'"
      using Cons.IH [OF sls s1] by blast
    with rs nb pl None show ?thesis by (simp add: j1_def)
  next
    case (Some parsed)
    from pl Some have cmd: "pd_command parsed = ''G0'' \<or> pd_command parsed = ''G1''"
      using parse_line_Some_command by blast
    from pl Some have ps: "pd_X parsed = line_params line (CHR ''X'') \<and>
         pd_Y parsed = line_params line (CHR ''Y'') \<and> pd_Z parsed = line_params line (CHR ''Z'')"
      using parse_line_Some_params by blast
    have sx: "\<forall>v. pd_X parsed = Some v \<longrightarrow> safe_number v"
      and sy: "\<forall>v. pd_Y parsed = Some v \<longrightarrow> safe_number v"
      and sz: "\<forall>v. pd_Z parsed = Some v \<longrightarrow> safe_number v"
      using ps safe_line_params [OF sl] by auto
    from execute_quiet [OF cmd r1 q2 s1 sx sy sz] obtain j2 where
      e: "execute parsed j1 = Inr j2" and r2: "readings (the_printer j2) = rs"
      and s2: "safe_position j2"
      by blast
    from qs len r2 obtain j' where "print_loop lines j2 = Inr j'"
      using Cons.IH [OF sls s2] by auto
    with rs nb pl Some e show ?thesis by (simp add: j1_def)
  qed
qed

text \<open>
  C9, amended. Whenever the job reaches the end of the loop, by the end of the lines
  or by the centre button, \<open>extrude(False)\<close> is called on the printer the loop left:
  the extruder is off afterwards, and the sequence that disengages it is the last
  action if it was on. The job reaches that point when the file has a line, every
  number in it and the starting position can be converted to degrees, and the
  readings, two for each line, show no button down and both motors done. A job in
  which \<open>move\<close> raises ends in the loop, without that call.
\<close>

theorem job_ends_with_extruder_off:
  "(print_job lines j = Inr j' \<longrightarrow>
      \<not> extruding (the_printer j') \<and>
      (\<exists>jl. print_loop lines j = Inr jl \<and>
         the_printer j' = extrude False (the_printer jl) \<and>
         actions (the_printer j') =
           actions (the_printer jl) @ (if extruding (the_printer jl) then disengage else []))) \<and>
   (lines \<noteq> [] \<and> list_all safe_line lines \<and> safe_position j \<and>
    list_all quiet (readings (the_printer j)) \<and>
    2 * length lines \<le> length (readings (the_printer j)) \<longrightarrow>
      (\<exists>j''. print_job lines j = Inr j''))"
proof (intro conjI impI)
  assume a: "print_job lines j = Inr j'"
  then obtain jl where l: "print_loop lines j = Inr jl"
    and j': "j' = jl\<lparr>the_printer := extrude False (the_printer jl)\<rparr>"
    by (auto simp: print_job_def split: if_splits sum.splits)
  from j' show "\<not> extruding (the_printer j')"
    by (simp add: extruding_extrude)
  from l j' show "\<exists>jl. print_loop lines j = Inr jl \<and>
         the_printer j' = extrude False (the_printer jl) \<and>
         actions (the_printer j') =
           actions (the_printer jl) @ (if extruding (the_printer jl) then disengage else [])"
    by (auto simp: actions_extrude)
next
  assume "lines \<noteq> [] \<and> list_all safe_line lines \<and> safe_position j \<and>
    list_all quiet (readings (the_printer j)) \<and>
    2 * length lines \<le> length (readings (the_printer j))"
  then show "\<exists>j''. print_job lines j = Inr j''"
    using print_loop_completes [of lines j] by (auto simp: print_job_def)
qed


text \<open>The line \<open>G1 X1e308\<close>: a coordinate that is a float, and whose value in degrees is not.\<close>

lemma py_float_1e308: "py_float ''1e308'' = Some (Finite (10 ^ 308))"
proof -
  have "take_sign ''1e308'' = (False, ''1e308'')" by code_simp
  moreover have "takeWhile (\<lambda>c. \<not> is_exp_mark c) ''1e308'' = ''1''" by code_simp
  moreover have "dropWhile (\<lambda>c. \<not> is_exp_mark c) ''1e308'' = ''e308''" by code_simp
  moreover have "map lower_char ''1e308'' = ''1e308''" by code_simp
  moreover have "mantissa ''1'' = Some (''1'', [])" by code_simp
  moreover have "exponent ''e308'' = Some 308" by code_simp
  moreover have "digits_val ''1'' = 1" by code_simp
  moreover have "digits_val [] = 0" by code_simp
  moreover have "round_float (10 ^ 308) = Finite (10 ^ 308)"
    by (simp add: round_float_def float_overflow_def float_underflow_def)
  ultimately show ?thesis
    by (simp add: py_float_def scale10_def del: take_sign.simps exponent.simps)
qed

lemma to_degrees_1e308: "to_degrees (Finite (10 ^ 308)) (4 / 45) = Inl OverflowError"
  by (simp add: to_degrees_def round_float_def float_overflow_def float_underflow_def)

lemma parse_X1e308:
  "parse_line ''G1 X1e308'' (init_processor\<lparr>last_e_value := Finite 1\<rparr>) =
     (Some \<lparr>pd_command = ''G1'', pd_extruding = False, pd_X = Some (Finite (10 ^ 308)),
            pd_Y = None, pd_Z = None\<rparr>,
      init_processor\<lparr>last_e_value := Finite 1\<rparr>)"
proof -
  have parts: "line_parts ''G1 X1e308'' = [''G1'', ''X1e308'']" by code_simp
  have up: "upper ''G1'' = ''G1''" by code_simp
  have st: "strip ''X1e308'' = ''X1e308''" by code_simp
  have ux: "upper_char (CHR ''X'') = CHR ''X''" by code_simp
  have pp: "parse_params Map.empty [''X1e308''] =
      (Map.empty(CHR ''X'' \<mapsto> Finite (10 ^ 308)), False)"
    by (simp add: Let_def st ux py_float_1e308 del: fun_upd_apply)
  show ?thesis
    by (simp add: parse_line_parts [OF parts] pp up dispatch_def del: parse_params.simps)
qed

lemma parse_E1:
  "parse_line ''G1 E1'' init_processor =
     (Some \<lparr>pd_command = ''G1'', pd_extruding = True, pd_X = None, pd_Y = None, pd_Z = None\<rparr>,
      init_processor\<lparr>last_e_value := Finite 1\<rparr>)"
  by code_simp

text \<open>
  C9, as claimed: for every sequence of lines the extruder is off when the job ends.
  The file \<open>G1 E1\<close>, \<open>G1 X1e308\<close>, on a machine at rest: the first line engages the
  extruder; at the second, \<open>int(x / x_mm_per_degree)\<close> raises \<open>OverflowError\<close> in
  \<open>move\<close>, nothing catches it, and the program ends in the loop with the extruder on.
\<close>

theorem job_dies_with_extruder_on:
  "print_job [''G1 E1'', ''G1 X1e308''] (init_job [idle, idle, idle, idle]) =
     Inl (OverflowError,
          \<lparr>the_processor = init_processor\<lparr>last_e_value := Finite 1\<rparr>,
           the_printer =
             \<lparr>extruding = True,
              actions = [RunUntilStalled e_motor 500 HOLD 40, Wait 450, PollXYDone True],
              readings = [idle]\<rparr>,
           current_x = Finite 0, current_y = Finite 0, current_z = Finite 0\<rparr>)"
  by (simp add: print_job_def run_defs parse_E1 parse_X1e308 to_degrees_def round_float_def py_int_def)

text \<open>The same with a coordinate that is NaN: \<open>int\<close> raises \<open>ValueError\<close>.\<close>

lemma parse_Xnan:
  "parse_line ''G1 Xnan'' (init_processor\<lparr>last_e_value := Finite 1\<rparr>) =
     (Some \<lparr>pd_command = ''G1'', pd_extruding = False, pd_X = Some NaN, pd_Y = None,
            pd_Z = None\<rparr>,
      init_processor\<lparr>last_e_value := Finite 1\<rparr>)"
  by code_simp

lemma job_dies_on_nan:
  "print_job [''G1 E1'', ''G1 Xnan''] (init_job [idle, idle, idle, idle]) =
     Inl (ValueError,
          \<lparr>the_processor = init_processor\<lparr>last_e_value := Finite 1\<rparr>,
           the_printer =
             \<lparr>extruding = True,
              actions = [RunUntilStalled e_motor 500 HOLD 40, Wait 450, PollXYDone True],
              readings = [idle]\<rparr>,
           current_x = Finite 0, current_y = Finite 0, current_z = Finite 0\<rparr>)"
  by (simp add: print_job_def run_defs parse_E1 parse_Xnan to_degrees_def round_float_def
      py_int_def)

text \<open>Two jobs: one of a single extruding line, one stopped by the centre button.\<close>

lemma job_one_line:
  "print_job [''G1 X10 E1''] (init_job [idle, idle]) =
     Inr \<lparr>the_processor = init_processor\<lparr>last_e_value := Finite 1\<rparr>,
          the_printer =
            \<lparr>extruding = False,
             actions = [RunUntilStalled e_motor 500 HOLD 40, Wait 450, PollXYDone True,
                        RunTarget x_motor 90 112 HOLD False,
                        RunUntilStalled e_motor (- 500) BRAKE 40],
             readings = []\<rparr>,
          current_x = Finite 10, current_y = Finite 0, current_z = Finite 0\<rparr>"
  by (simp add: print_job_def run_defs parse_X10_E1)

lemma job_cancelled:
  "print_job [''G1 X10 E1'', ''G1 X20 E2'']
     (init_job [idle, idle, idle\<lparr>buttons := [CENTER]\<rparr>, idle]) =
     Inr \<lparr>the_processor = init_processor\<lparr>last_e_value := Finite 1\<rparr>,
          the_printer =
            \<lparr>extruding = False,
             actions = [RunUntilStalled e_motor 500 HOLD 40, Wait 450, PollXYDone True,
                        RunTarget x_motor 90 112 HOLD False,
                        RunUntilStalled e_motor (- 500) BRAKE 40],
             readings = []\<rparr>,
          current_x = Finite 10, current_y = Finite 0, current_z = Finite 0\<rparr>"
  by (simp add: print_job_def run_defs parse_X10_E1)

text \<open>C9, amended, at the job whose only line extrudes, and at the job stopped at its second line.\<close>

theorem job_ends_with_extruder_off_witness:
  "[''G1 X10 E1''] \<noteq> [] \<and> list_all safe_line [''G1 X10 E1''] \<and>
   safe_position (init_job [idle, idle]) \<and>
   list_all quiet (readings (the_printer (init_job [idle, idle]))) \<and>
   2 * length [''G1 X10 E1''] \<le> length (readings (the_printer (init_job [idle, idle]))) \<and>
   (\<exists>j'. print_job [''G1 X10 E1''] (init_job [idle, idle]) = Inr j' \<and>
         \<not> extruding (the_printer j')) \<and>
   (\<exists>j'. print_job [''G1 X10 E1'', ''G1 X20 E2'']
           (init_job [idle, idle, idle\<lparr>buttons := [CENTER]\<rparr>, idle]) = Inr j' \<and>
         \<not> extruding (the_printer j'))"
proof -
  have a: "list_all quiet (readings (the_printer (init_job [idle, idle])))"
    by (simp add: init_job_def init_printer_def quiet_def idle_def)
  have b: "2 * length [''G1 X10 E1''] \<le> length (readings (the_printer (init_job [idle, idle])))"
    by (simp add: init_job_def init_printer_def)
  have c: "[''G1 X10 E1''] \<noteq> []" by simp
  have s: "list_all safe_line [''G1 X10 E1'']" by code_simp
  have t: "safe_position (init_job [idle, idle])"
    by (simp add: safe_position_def init_job_def converts_def degrees_examples
        x_mm_per_degree_def y_mm_per_degree_def z_mm_per_degree_def)
  from job_ends_with_extruder_off [of "[''G1 X10 E1'']" "init_job [idle, idle]"] a b c s t
  obtain j1 where d: "print_job [''G1 X10 E1''] (init_job [idle, idle]) = Inr j1"
    by blast
  from job_ends_with_extruder_off [of "[''G1 X10 E1'']" "init_job [idle, idle]" j1] d
  have e: "\<not> extruding (the_printer j1)" by blast
  let ?lines = "[''G1 X10 E1'', ''G1 X20 E2'']"
  let ?j = "init_job [idle, idle, idle\<lparr>buttons := [CENTER]\<rparr>, idle]"
  from job_cancelled obtain j2 where f: "print_job ?lines ?j = Inr j2"
    by blast
  from job_ends_with_extruder_off [of ?lines ?j j2] f
  have g: "\<not> extruding (the_printer j2)" by blast
  from c s t a b d e f g show ?thesis by blast
qed


end
